theory Spec2Isabelle
  imports Main "HOL-Library.Word" "HOL-Library.AList"
begin

unbundle bit_operations_syntax

section \<open>Common types\<close>

text \<open>
  Page and frame identifiers are C++ \<open>int\<close>s; \<open>INVALID_PAGE_ID\<close> is \<open>-1\<close>.
  Exceptions thrown by the code are values of \<open>error\<close>; \<open>NoFrame\<close> stands for
  the use of a frame id that \<open>Evict\<close> never wrote (the caller ignores its result), and
  \<open>OutOfRange\<close> for an access outside a container, \<open>OutOfFuel\<close> for a
  loop that did not finish within the fuel given to it, and \<open>Blocked\<close> for a call that
  never returns because it waits for a latch that nothing will release.
\<close>

datatype error =
  InvalidArgument | LogicError | RangeError | OutOfRange | NoFrame | OutOfFuel | Blocked

definition INVALID_PAGE_ID :: int where
  "INVALID_PAGE_ID = -1"

definition static_cast_int :: "nat \<Rightarrow> int" where
  \<comment> \<open>\<open>static_cast<int>(size_t)\<close>: the low 32 bits, read as two's complement.\<close>
  "static_cast_int n = sint (word_of_nat n :: 32 word)"

section \<open>LRU-K replacer (src/buffer/lru\_k\_replacer.cpp)\<close>

text \<open>
  \<open>pos\<close>, the list iterator kept in each entry, is not stored: it points to the
  frame's node, and \<open>erase(pos)\<close> unlinks that node from the list that holds it,
  written \<open>remove1\<close>. \<open>history_list_.erase\<close> is only reached for a frame whose node
  is in the history list. \<open>cache_list_.erase\<close> is also reached for a frame whose node is
  still in the history list, when \<open>k_\<close> is at most 1 (the second access takes the branch
  \<open>new_size > k_\<close>, and \<open>Remove\<close> its \<open>else\<close> branch): undefined in C++;
  \<open>std::list\<close> unlinks the node through its own neighbours, so the history list loses it
  (\<open>cache_erase\<close>). The front of a list is its head.
\<close>

record FrameEntry =
  in_count :: nat
  evictable :: bool

record LRUKReplacer =
  replacer_size :: nat
  replacer_k :: nat
  curr_size :: "64 word"
  history_list :: "int list"
  cache_list :: "int list"
  entries :: "int \<rightharpoonup> FrameEntry"

definition default_entry :: FrameEntry where
  \<comment> \<open>Modelled from the spec: the declaration of \<open>FrameEntry\<close> (lru\_k\_replacer.h) is
      not among the sources. The count starts at 0 (the first \<open>RecordAccess\<close> sees 1) and
      the flag starts true (\<open>curr_size\<close> counts the evictable entries and the first
      \<open>RecordAccess\<close> increments it).\<close>
  "default_entry = \<lparr>in_count = 0, evictable = True\<rparr>"

definition LRUKReplacer_new :: "nat \<Rightarrow> nat \<Rightarrow> LRUKReplacer" where
  "LRUKReplacer_new num_frames kk =
     \<lparr>replacer_size = num_frames, replacer_k = kk, curr_size = 0, history_list = [],
      cache_list = [], entries = Map.empty\<rparr>"

definition subscript :: "(int \<rightharpoonup> FrameEntry) \<Rightarrow> int \<Rightarrow> FrameEntry \<times> (int \<rightharpoonup> FrameEntry)" where
  \<comment> \<open>\<open>entries_[f]\<close>: inserts a default entry when \<open>f\<close> has none.\<close>
  "subscript es f = (case es f of None \<Rightarrow> (default_entry, es(f \<mapsto> default_entry))
                                 | Some e \<Rightarrow> (e, es))"

fun evict_scan :: "(int \<rightharpoonup> FrameEntry) \<Rightarrow> int list \<Rightarrow> int option \<times> (int \<rightharpoonup> FrameEntry)" where
  \<comment> \<open>The reverse-iterator loop of \<open>Evict\<close>, over the list back to front.\<close>
  "evict_scan es [] = (None, es)"
| "evict_scan es (f # fs) =
     (case subscript es f of (e, es') \<Rightarrow>
        if evictable e then (Some f, es') else evict_scan es' fs)"

definition erase_last :: "int \<Rightarrow> int list \<Rightarrow> int list" where
  \<comment> \<open>\<open>erase(std::next(it).base())\<close> at the first match from the back.\<close>
  "erase_last f xs = rev (remove1 f (rev xs))"

definition Evict :: "LRUKReplacer \<Rightarrow> int option \<times> LRUKReplacer" where
  "Evict r =
     (case evict_scan (entries r) (rev (history_list r)) of
        (Some f, es) \<Rightarrow>
          (Some f, r\<lparr>curr_size := curr_size r - 1,
                     history_list := erase_last f (history_list r),
                     entries := es(f := None)\<rparr>)
      | (None, es) \<Rightarrow>
          (case evict_scan es (rev (cache_list r)) of
             (Some f, es') \<Rightarrow>
               (Some f, r\<lparr>curr_size := curr_size r - 1,
                          cache_list := erase_last f (cache_list r),
                          entries := es'(f := None)\<rparr>)
           | (None, es') \<Rightarrow> (None, r\<lparr>entries := es'\<rparr>)))"

definition cache_erase :: "LRUKReplacer \<Rightarrow> int \<Rightarrow> LRUKReplacer" where
  \<comment> \<open>\<open>cache_list_.erase(entries_[frame_id].pos_)\<close>: the frame's node leaves the cache
      list when it is there, the history list otherwise.\<close>
  "cache_erase r frame_id =
     (if frame_id \<in> set (cache_list r)
      then r\<lparr>cache_list := remove1 frame_id (cache_list r)\<rparr>
      else r\<lparr>history_list := remove1 frame_id (history_list r)\<rparr>)"

definition RecordAccess :: "LRUKReplacer \<Rightarrow> int \<Rightarrow> error + LRUKReplacer" where
  "RecordAccess r frame_id =
     (if frame_id > static_cast_int (replacer_size r) then Inl InvalidArgument
      else
        case subscript (entries r) frame_id of (e, es) \<Rightarrow>
          let new_size = in_count e + 1;
              r1 = r\<lparr>entries := es(frame_id \<mapsto> e\<lparr>in_count := new_size\<rparr>)\<rparr>
          in if new_size = 1 then
               Inr (r1\<lparr>curr_size := curr_size r1 + 1,
                       history_list := frame_id # history_list r1\<rparr>)
             else if new_size = replacer_k r then
               Inr (r1\<lparr>history_list := remove1 frame_id (history_list r1),
                       cache_list := frame_id # cache_list r1\<rparr>)
             else if new_size > replacer_k r then
               (let r2 = cache_erase r1 frame_id
                in Inr (r2\<lparr>cache_list := frame_id # cache_list r2\<rparr>))
             else Inr r1)"

definition SetEvictable :: "LRUKReplacer \<Rightarrow> int \<Rightarrow> bool \<Rightarrow> error + LRUKReplacer" where
  "SetEvictable r frame_id set_evictable =
     (if frame_id > static_cast_int (replacer_size r) then Inl InvalidArgument
      else
        case entries r frame_id of
          None \<Rightarrow> Inr r
        | Some e \<Rightarrow>
            let c1 = (if evictable e \<and> \<not> set_evictable then curr_size r - 1 else curr_size r);
                c2 = (if \<not> evictable e \<and> set_evictable then c1 + 1 else c1)
            in Inr (r\<lparr>curr_size := c2,
                       entries := (entries r)(frame_id \<mapsto> e\<lparr>evictable := set_evictable\<rparr>)\<rparr>))"

definition LRUKReplacer_Remove :: "LRUKReplacer \<Rightarrow> int \<Rightarrow> error + LRUKReplacer" where
  "LRUKReplacer_Remove r frame_id =
     (if frame_id > static_cast_int (replacer_size r) then Inl InvalidArgument
      else
        case entries r frame_id of
          None \<Rightarrow> Inr r
        | Some e \<Rightarrow>
            if in_count e < replacer_k r then
              Inr (r\<lparr>curr_size := curr_size r - 1,
                      history_list := remove1 frame_id (history_list r),
                      entries := (entries r)(frame_id := None)\<rparr>)
            else
              (let r1 = cache_erase r frame_id
               in Inr (r1\<lparr>curr_size := curr_size r1 - 1,
                          entries := (entries r1)(frame_id := None)\<rparr>)))"

definition Size :: "LRUKReplacer \<Rightarrow> 64 word" where
  "Size r = curr_size r"

text \<open>
  A frame is tracked when it has an entry. Between operations every tracked frame is in
  the history list or in the cache list, and the lists hold tracked frames only.
\<close>

definition ev :: "(int \<rightharpoonup> FrameEntry) \<Rightarrow> int \<Rightarrow> bool" where
  "ev es f = (case es f of None \<Rightarrow> False | Some e \<Rightarrow> evictable e)"

definition is_evictable :: "LRUKReplacer \<Rightarrow> int \<Rightarrow> bool" where
  "is_evictable r f = ev (entries r) f"

definition tracked :: "LRUKReplacer \<Rightarrow> int set" where
  "tracked r = dom (entries r)"

definition replacer_wf :: "LRUKReplacer \<Rightarrow> bool" where
  "replacer_wf r \<longleftrightarrow> tracked r = set (history_list r) \<union> set (cache_list r)"

section \<open>Extendible hash table (src/container/hash/extendible\_hash\_table.cpp)\<close>

text \<open>
  Keys are C++ \<open>int\<close>s. The directory is a vector of shared pointers: several slots may
  point to one bucket, so buckets live in a store (a list, a reference is an index into it)
  and \<open>std::make_shared\<close> appends a bucket to the store. A directory slot or a reference
  outside its container is the error \<open>OutOfRange\<close>.
\<close>

record 'v Bucket =
  b_size :: nat
  b_depth :: nat
  b_list :: "(int \<times> 'v) list"

record 'v ExtendibleHashTable =
  global_depth :: nat
  bucket_size :: nat
  num_buckets :: int
  dir :: "nat list"
  buckets :: "'v Bucket list"

definition std_hash :: "int \<Rightarrow> int" where
  \<comment> \<open>\<open>std::hash<int>\<close>: the key converted to \<open>size_t\<close>.\<close>
  "std_hash key = take_bit 64 key"

definition Bucket_new :: "nat \<Rightarrow> nat \<Rightarrow> 'v Bucket" where
  "Bucket_new array_size depth = \<lparr>b_size = array_size, b_depth = depth, b_list = []\<rparr>"

definition ExtendibleHashTable_new :: "nat \<Rightarrow> 'v ExtendibleHashTable" where
  "ExtendibleHashTable_new bsize =
     \<lparr>global_depth = 0, bucket_size = bsize, num_buckets = 1, dir = [0],
      buckets = [Bucket_new bsize 0]\<rparr>"

definition IsFull :: "'v Bucket \<Rightarrow> bool" where
  \<comment> \<open>Modelled from the spec: \<open>Bucket::IsFull\<close> is defined in extendible\_hash\_table.h,
      which is not among the sources; a bucket holds up to \<open>bucket_size\<close> entries.\<close>
  "IsFull b \<longleftrightarrow> length (b_list b) = b_size b"

fun list_find :: "(int \<times> 'v) list \<Rightarrow> int \<Rightarrow> 'v option" where
  "list_find [] key = None"
| "list_find ((k', v) # xs) key = (if key = k' then Some v else list_find xs key)"

fun list_erase :: "(int \<times> 'v) list \<Rightarrow> int \<Rightarrow> ((int \<times> 'v) list) option" where
  "list_erase [] key = None"
| "list_erase ((k', v) # xs) key =
     (if key = k' then Some xs
      else case list_erase xs key of None \<Rightarrow> None | Some ys \<Rightarrow> Some ((k', v) # ys))"

fun list_assign :: "(int \<times> 'v) list \<Rightarrow> int \<Rightarrow> 'v \<Rightarrow> ((int \<times> 'v) list) option" where
  "list_assign [] key val = None"
| "list_assign ((k', v) # xs) key val =
     (if key = k' then Some ((k', val) # xs)
      else case list_assign xs key val of None \<Rightarrow> None | Some ys \<Rightarrow> Some ((k', v) # ys))"

definition Bucket_Find :: "'v Bucket \<Rightarrow> int \<Rightarrow> 'v option" where
  "Bucket_Find b key = list_find (b_list b) key"

definition Bucket_Remove :: "'v Bucket \<Rightarrow> int \<Rightarrow> bool \<times> 'v Bucket" where
  "Bucket_Remove b key =
     (case list_erase (b_list b) key of
        Some ys \<Rightarrow> (True, b\<lparr>b_list := ys\<rparr>)
      | None \<Rightarrow> (False, b))"

definition Bucket_Insert :: "'v Bucket \<Rightarrow> int \<Rightarrow> 'v \<Rightarrow> bool \<times> 'v Bucket" where
  "Bucket_Insert b key val =
     (case list_assign (b_list b) key val of
        Some ys \<Rightarrow> (True, b\<lparr>b_list := ys\<rparr>)
      | None \<Rightarrow>
          if \<not> IsFull b then (True, b\<lparr>b_list := b_list b @ [(key, val)]\<rparr>)
          else (False, b))"

definition IndexOf :: "'v ExtendibleHashTable \<Rightarrow> int \<Rightarrow> nat" where
  "IndexOf t key = nat (std_hash key AND (push_bit (global_depth t) 1 - 1))"

definition bucket_ref :: "'v ExtendibleHashTable \<Rightarrow> nat \<Rightarrow> error + nat" where
  \<comment> \<open>\<open>dir_[index]\<close>, as a reference into the store.\<close>
  "bucket_ref t index =
     (if index < length (dir t) \<and> dir t ! index < length (buckets t)
      then Inr (dir t ! index) else Inl OutOfRange)"

definition GetGlobalDepth :: "'v ExtendibleHashTable \<Rightarrow> nat" where
  "GetGlobalDepth t = global_depth t"

definition GetLocalDepth :: "'v ExtendibleHashTable \<Rightarrow> nat \<Rightarrow> error + nat" where
  "GetLocalDepth t dir_index =
     (case bucket_ref t dir_index of
        Inl e \<Rightarrow> Inl e
      | Inr p \<Rightarrow> Inr (b_depth (buckets t ! p)))"

definition GetNumBuckets :: "'v ExtendibleHashTable \<Rightarrow> int" where
  "GetNumBuckets t = num_buckets t"

definition ExtendibleHashTable_Find :: "'v ExtendibleHashTable \<Rightarrow> int \<Rightarrow> error + 'v option" where
  "ExtendibleHashTable_Find t key =
     (case bucket_ref t (IndexOf t key) of
        Inl e \<Rightarrow> Inl e
      | Inr p \<Rightarrow> Inr (Bucket_Find (buckets t ! p) key))"

definition ExtendibleHashTable_Remove ::
  "'v ExtendibleHashTable \<Rightarrow> int \<Rightarrow> error + (bool \<times> 'v ExtendibleHashTable)" where
  "ExtendibleHashTable_Remove t key =
     (case bucket_ref t (IndexOf t key) of
        Inl e \<Rightarrow> Inl e
      | Inr p \<Rightarrow>
          (case Bucket_Remove (buckets t ! p) key of
             (ok, b) \<Rightarrow> Inr (ok, t\<lparr>buckets := (buckets t)[p := b]\<rparr>)))"

fun redistribute ::
  "nat \<Rightarrow> (int \<times> 'v) list \<Rightarrow> 'v Bucket \<Rightarrow> 'v Bucket \<Rightarrow> 'v Bucket \<times> 'v Bucket" where
  \<comment> \<open>The loop over the items of the split bucket; \<open>local_mask = 1 << local_depth\<close>.\<close>
  "redistribute local_depth [] bucket_0 bucket_1 = (bucket_0, bucket_1)"
| "redistribute local_depth ((k', v) # xs) bucket_0 bucket_1 =
     (if std_hash k' AND push_bit local_depth 1 = 0
      then redistribute local_depth xs (snd (Bucket_Insert bucket_0 k' v)) bucket_1
      else redistribute local_depth xs bucket_0 (snd (Bucket_Insert bucket_1 k' v)))"

definition rewire :: "nat \<Rightarrow> nat \<Rightarrow> nat \<Rightarrow> nat \<Rightarrow> nat list \<Rightarrow> nat list" where
  \<comment> \<open>The loop over the directory: slots that point to the split bucket get one of the
      two new buckets, by the bit of the slot index at \<open>local_depth\<close>.\<close>
  "rewire target local_depth p0 p1 d =
     map (\<lambda>i. if d ! i = target
               then (if int i AND push_bit local_depth 1 = 0 then p0 else p1)
               else d ! i) [0..<length d]"

definition split_bucket :: "'v ExtendibleHashTable \<Rightarrow> nat \<Rightarrow> 'v ExtendibleHashTable" where
  \<comment> \<open>One pass of the body of the \<open>while\<close> loop of \<open>Insert\<close>;
      \<open>target\<close> is \<open>dir_[index]\<close>, a valid reference.\<close>
  "split_bucket t target =
     (let local_depth = b_depth (buckets t ! target);
          t1 = (if global_depth t = local_depth
                then t\<lparr>global_depth := global_depth t + 1, dir := dir t @ dir t\<rparr>
                else t);
          p0 = length (buckets t1);
          p1 = length (buckets t1) + 1;
          (bucket_0, bucket_1) =
             redistribute local_depth (b_list (buckets t1 ! target))
               (Bucket_new (bucket_size t1) (local_depth + 1))
               (Bucket_new (bucket_size t1) (local_depth + 1))
      in t1\<lparr>num_buckets := num_buckets t1 + 1,
             dir := rewire target local_depth p0 p1 (dir t1),
             buckets := buckets t1 @ [bucket_0, bucket_1]\<rparr>)"

fun split_while ::
  "nat \<Rightarrow> 'v ExtendibleHashTable \<Rightarrow> int \<Rightarrow> error + 'v ExtendibleHashTable" where
  \<comment> \<open>\<open>while (dir_[index]->IsFull()) \<dots>\<close>; each pass takes one unit of fuel.\<close>
  "split_while fuel t key =
     (case bucket_ref t (IndexOf t key) of
        Inl e \<Rightarrow> Inl e
      | Inr target \<Rightarrow>
          if IsFull (buckets t ! target) then
            (case fuel of
               0 \<Rightarrow> Inl OutOfFuel
             | Suc n \<Rightarrow> split_while n (split_bucket t target) key)
          else Inr t)"

definition ExtendibleHashTable_Insert ::
  "nat \<Rightarrow> 'v ExtendibleHashTable \<Rightarrow> int \<Rightarrow> 'v \<Rightarrow> error + 'v ExtendibleHashTable" where
  "ExtendibleHashTable_Insert fuel t key val =
     (case bucket_ref t (IndexOf t key) of
        Inl e \<Rightarrow> Inl e
      | Inr target \<Rightarrow>
          if Bucket_Find (buckets t ! target) key \<noteq> None then
            Inr (t\<lparr>buckets := (buckets t)[target := snd (Bucket_Insert (buckets t ! target) key val)]\<rparr>)
          else
            (case split_while fuel t key of
               Inl e \<Rightarrow> Inl e
             | Inr t' \<Rightarrow>
                 (case bucket_ref t' (IndexOf t' key) of
                    Inl e \<Rightarrow> Inl e
                  | Inr p \<Rightarrow>
                      Inr (t'\<lparr>buckets := (buckets t')[p := snd (Bucket_Insert (buckets t' ! p) key val)]\<rparr>))))"

text \<open>
  The test \<open>ExtendibleHashTableTest.SampleTest\<close> (extendible\_hash\_test.cpp) calls
  \<open>Insert\<close> nine times on a table of bucket size 2, reads four local depths, looks four
  keys up and removes four keys, one call after the other.
\<close>

fun insert_each ::
  "nat \<Rightarrow> 'v ExtendibleHashTable \<Rightarrow> (int \<times> 'v) list \<Rightarrow> error + 'v ExtendibleHashTable" where
  "insert_each fuel t [] = Inr t"
| "insert_each fuel t ((k', v) # xs) =
     (case ExtendibleHashTable_Insert fuel t k' v of
        Inl e \<Rightarrow> Inl e
      | Inr t' \<Rightarrow> insert_each fuel t' xs)"

fun remove_each ::
  "'v ExtendibleHashTable \<Rightarrow> int list \<Rightarrow> error + (bool list \<times> 'v ExtendibleHashTable)" where
  "remove_each t [] = Inr ([], t)"
| "remove_each t (k' # ks) =
     (case ExtendibleHashTable_Remove t k' of
        Inl e \<Rightarrow> Inl e
      | Inr (ok, t') \<Rightarrow>
          (case remove_each t' ks of
             Inl e \<Rightarrow> Inl e
           | Inr (oks, t'') \<Rightarrow> Inr (ok # oks, t'')))"

definition SampleTest_inserts :: "(int \<times> string) list" where
  "SampleTest_inserts =
     [(1, ''a''), (2, ''b''), (3, ''c''), (4, ''d''), (5, ''e''), (6, ''f''), (7, ''g''),
      (8, ''h''), (9, ''i'')]"

definition SampleTest_table :: "string ExtendibleHashTable" where
  \<comment> \<open>The table after the nine inserts; buckets 0 to 3 are no longer referenced.\<close>
  "SampleTest_table =
     \<lparr>global_depth = 3, bucket_size = 2, num_buckets = 5,
      dir = [5, 7, 6, 4, 5, 8, 6, 4],
      buckets =
        [\<lparr>b_size = 2, b_depth = 0, b_list = [(1, ''a''), (2, ''b'')]\<rparr>,
         \<lparr>b_size = 2, b_depth = 1, b_list = [(2, ''b''), (4, ''d'')]\<rparr>,
         \<lparr>b_size = 2, b_depth = 1, b_list = [(1, ''a''), (3, ''c'')]\<rparr>,
         \<lparr>b_size = 2, b_depth = 2, b_list = [(1, ''a''), (5, ''e'')]\<rparr>,
         \<lparr>b_size = 2, b_depth = 2, b_list = [(3, ''c''), (7, ''g'')]\<rparr>,
         \<lparr>b_size = 2, b_depth = 2, b_list = [(4, ''d''), (8, ''h'')]\<rparr>,
         \<lparr>b_size = 2, b_depth = 2, b_list = [(2, ''b''), (6, ''f'')]\<rparr>,
         \<lparr>b_size = 2, b_depth = 3, b_list = [(1, ''a''), (9, ''i'')]\<rparr>,
         \<lparr>b_size = 2, b_depth = 3, b_list = [(5, ''e'')]\<rparr>]\<rparr>"

section \<open>Buffer pool manager (src/buffer/buffer\_pool\_manager\_instance.cpp)\<close>

text \<open>
  A frame is a \<open>Page\<close> object: its bytes and its metadata. The bytes are of any type
  with a zero (\<open>ResetMemory\<close> writes it). \<open>page_table_\<close> is used through
  \<open>Find\<close>, \<open>Insert\<close> and \<open>Remove\<close> only and is the partial map from page ids
  to frame ids that these maintain. The disk manager is a function from page ids to bytes,
  together with the list of \<open>WritePage\<close> calls made so far. A pointer \<open>&pages_[f]\<close>
  returned to the caller is the frame id \<open>f\<close>; an index outside \<open>pages_\<close> is the
  error \<open>OutOfRange\<close>. The mutex is not modelled.
\<close>

record 'd Page =
  data :: 'd
  page_id :: int
  pin_count :: nat
  is_dirty :: bool

record 'd BufferPoolManagerInstance =
  pool_size :: nat
  pages :: "'d Page list"
  page_table :: "int \<rightharpoonup> int"
  replacer :: LRUKReplacer
  free_list :: "int list"
  next_page_id :: int
  disk :: "int \<Rightarrow> 'd"
  disk_writes :: "(int \<times> 'd) list"

definition Page_new :: "('d::zero) Page" where
  \<comment> \<open>Modelled from the spec: the constructor of \<open>Page\<close> (page.h) is not among the
      sources; a frame starts with zeroed memory, no page, pin count 0, clean.\<close>
  "Page_new = \<lparr>data = 0, page_id = INVALID_PAGE_ID, pin_count = 0, is_dirty = False\<rparr>"

definition BufferPoolManagerInstance_new :: "nat \<Rightarrow> nat \<Rightarrow> ('d::zero) BufferPoolManagerInstance" where
  "BufferPoolManagerInstance_new psize replacer_k' =
     \<lparr>pool_size = psize, pages = replicate psize Page_new, page_table = Map.empty,
      replacer = LRUKReplacer_new psize replacer_k',
      free_list = map int [0..<psize], next_page_id = 0,
      disk = (\<lambda>_. 0), disk_writes = []\<rparr>"

definition valid_frame :: "'d BufferPoolManagerInstance \<Rightarrow> int \<Rightarrow> bool" where
  "valid_frame st f \<longleftrightarrow> 0 \<le> f \<and> nat f < length (pages st)"

definition frame :: "'d BufferPoolManagerInstance \<Rightarrow> int \<Rightarrow> 'd Page" where
  "frame st f = pages st ! nat f"

definition set_frame ::
  "'d BufferPoolManagerInstance \<Rightarrow> int \<Rightarrow> 'd Page \<Rightarrow> 'd BufferPoolManagerInstance" where
  "set_frame st f p = st\<lparr>pages := (pages st)[nat f := p]\<rparr>"

definition WritePage ::
  "'d BufferPoolManagerInstance \<Rightarrow> int \<Rightarrow> 'd \<Rightarrow> 'd BufferPoolManagerInstance" where
  "WritePage st pid bytes =
     st\<lparr>disk := (disk st)(pid := bytes), disk_writes := disk_writes st @ [(pid, bytes)]\<rparr>"

definition is_page_available :: "'d BufferPoolManagerInstance \<Rightarrow> bool" where
  \<comment> \<open>The loop \<open>for (i = 0; i < pool_size_; i++) if (pages_[i].GetPinCount() == 0) \<dots>\<close>.\<close>
  "is_page_available st \<longleftrightarrow> list_ex (\<lambda>i. pin_count (pages st ! i) = 0) [0..<pool_size st]"

definition evict_frame ::
  "('d::zero) BufferPoolManagerInstance \<Rightarrow> int \<Rightarrow> 'd BufferPoolManagerInstance" where
  \<comment> \<open>What \<open>NewPgImp\<close> and \<open>FetchPgImp\<close> both do with the frame \<open>Evict\<close> gave them:
      write back if dirty, reset the memory, drop the page-table entry.\<close>
  "evict_frame st frame_id =
     (let evicted_page_id = page_id (frame st frame_id);
          st1 = (if is_dirty (frame st frame_id)
                 then set_frame (WritePage st evicted_page_id (data (frame st frame_id)))
                        frame_id ((frame st frame_id)\<lparr>is_dirty := False\<rparr>)
                 else st);
          st2 = set_frame st1 frame_id ((frame st1 frame_id)\<lparr>data := 0\<rparr>)
      in st2\<lparr>page_table := (page_table st2)(evicted_page_id := None)\<rparr>)"

definition acquire_frame ::
  "('d::zero) BufferPoolManagerInstance \<Rightarrow> error + (int \<times> 'd BufferPoolManagerInstance)" where
  \<comment> \<open>The \<open>if (!free_list_.empty()) \<dots> else \<dots>\<close> block of \<open>NewPgImp\<close> and
      \<open>FetchPgImp\<close>. The result of \<open>Evict\<close> is not checked by the code: when it is
      false the frame id was never written.\<close>
  "acquire_frame st =
     (case free_list st of
        f # fs \<Rightarrow>
          if valid_frame st f then Inr (f, st\<lparr>free_list := fs\<rparr>) else Inl OutOfRange
      | [] \<Rightarrow>
          (case Evict (replacer st) of
             (None, r) \<Rightarrow> Inl NoFrame
           | (Some f, r) \<Rightarrow>
               if valid_frame st f then Inr (f, evict_frame (st\<lparr>replacer := r\<rparr>) f)
               else Inl OutOfRange))"

definition touch_frame ::
  "'d BufferPoolManagerInstance \<Rightarrow> int \<Rightarrow> error + 'd BufferPoolManagerInstance" where
  \<comment> \<open>\<open>replacer_->RecordAccess(frame_id); replacer_->SetEvictable(frame_id, false);\<close>\<close>
  "touch_frame st frame_id =
     (case RecordAccess (replacer st) frame_id of
        Inl e \<Rightarrow> Inl e
      | Inr r \<Rightarrow>
          (case SetEvictable r frame_id False of
             Inl e \<Rightarrow> Inl e
           | Inr r' \<Rightarrow> Inr (st\<lparr>replacer := r'\<rparr>)))"

definition NewPgImp ::
  "('d::zero) BufferPoolManagerInstance \<Rightarrow> error + (int \<times> int \<times> 'd BufferPoolManagerInstance)" where
  \<comment> \<open>Returns the new page id, the frame, and the pool.\<close>
  "NewPgImp st =
     (if \<not> is_page_available st then Inl LogicError
      else
        let new_page_id = next_page_id st;
            st0 = st\<lparr>next_page_id := next_page_id st + 1\<rparr>
        in case acquire_frame st0 of
             Inl e \<Rightarrow> Inl e
           | Inr (frame_id, st1) \<Rightarrow>
               let st2 = st1\<lparr>page_table := (page_table st1)(new_page_id \<mapsto> frame_id)\<rparr>;
                   st3 = set_frame st2 frame_id
                           ((frame st2 frame_id)\<lparr>page_id := new_page_id, pin_count := 1\<rparr>)
               in case touch_frame st3 frame_id of
                    Inl e \<Rightarrow> Inl e
                  | Inr st4 \<Rightarrow> Inr (new_page_id, frame_id, st4))"

definition FetchPgImp ::
  "('d::zero) BufferPoolManagerInstance \<Rightarrow> int \<Rightarrow> error + (int \<times> 'd BufferPoolManagerInstance)" where
  "FetchPgImp st pid =
     (case page_table st pid of
        Some frame_id \<Rightarrow>
          if \<not> valid_frame st frame_id then Inl OutOfRange
          else
            let st1 = set_frame st frame_id
                        ((frame st frame_id)\<lparr>pin_count := pin_count (frame st frame_id) + 1\<rparr>)
            in (case touch_frame st1 frame_id of
                  Inl e \<Rightarrow> Inl e
                | Inr st2 \<Rightarrow> Inr (frame_id, st2))
      | None \<Rightarrow>
          if \<not> is_page_available st then Inl LogicError
          else
            case acquire_frame st of
              Inl e \<Rightarrow> Inl e
            | Inr (frame_id, st1) \<Rightarrow>
                let st2 = st1\<lparr>page_table := (page_table st1)(pid \<mapsto> frame_id)\<rparr>;
                    st3 = set_frame st2 frame_id
                            ((frame st2 frame_id)\<lparr>page_id := pid, pin_count := 1\<rparr>);
                    st4 = set_frame st3 frame_id ((frame st3 frame_id)\<lparr>data := disk st3 pid\<rparr>)
                in case touch_frame st4 frame_id of
                     Inl e \<Rightarrow> Inl e
                   | Inr st5 \<Rightarrow> Inr (frame_id, st5))"

definition UnpinPgImp ::
  "'d BufferPoolManagerInstance \<Rightarrow> int \<Rightarrow> bool \<Rightarrow> error + (bool \<times> 'd BufferPoolManagerInstance)" where
  "UnpinPgImp st pid dirty =
     (case page_table st pid of
        None \<Rightarrow> Inr (False, st)
      | Some frame_id \<Rightarrow>
          if \<not> valid_frame st frame_id then Inl OutOfRange
          else if pin_count (frame st frame_id) = 0 then Inr (False, st)
          else
            let p1 = (if dirty then (frame st frame_id)\<lparr>is_dirty := dirty\<rparr> else frame st frame_id);
                p2 = p1\<lparr>pin_count := pin_count p1 - 1\<rparr>;
                st1 = set_frame st frame_id p2
            in if pin_count p2 = 0 then
                 (case SetEvictable (replacer st1) frame_id True of
                    Inl e \<Rightarrow> Inl e
                  | Inr r \<Rightarrow> Inr (True, st1\<lparr>replacer := r\<rparr>))
               else Inr (True, st1))"

definition FlushPgImp ::
  "'d BufferPoolManagerInstance \<Rightarrow> int \<Rightarrow> error + (bool \<times> 'd BufferPoolManagerInstance)" where
  "FlushPgImp st pid =
     (if pid = INVALID_PAGE_ID then Inr (False, st)
      else
        case page_table st pid of
          None \<Rightarrow> Inr (False, st)
        | Some frame_id \<Rightarrow>
            if \<not> valid_frame st frame_id then Inl OutOfRange
            else Inr (True, WritePage st pid (data (frame st frame_id))))"

definition DeletePgImp ::
  "('d::zero) BufferPoolManagerInstance \<Rightarrow> int \<Rightarrow> error + (bool \<times> 'd BufferPoolManagerInstance)" where
  "DeletePgImp st pid =
     (case page_table st pid of
        None \<Rightarrow> Inr (True, st)
      | Some frame_id \<Rightarrow>
          if \<not> valid_frame st frame_id then Inl OutOfRange
          else if pin_count (frame st frame_id) > 0 then Inr (False, st)
          else
            case LRUKReplacer_Remove (replacer st) frame_id of
              Inl e \<Rightarrow> Inl e
            | Inr r \<Rightarrow>
                Inr (True,
                     set_frame
                       (st\<lparr>page_table := (page_table st)(pid := None), replacer := r,
                           free_list := free_list st @ [frame_id]\<rparr>)
                       frame_id
                       \<lparr>data = 0, page_id = INVALID_PAGE_ID, pin_count = 0, is_dirty = False\<rparr>))"

fun new_pages ::
  "nat \<Rightarrow> ('d::zero) BufferPoolManagerInstance \<Rightarrow> error + 'd BufferPoolManagerInstance" where
  \<comment> \<open>\<open>n\<close> calls of \<open>NewPgImp\<close>, none of the pages unpinned.\<close>
  "new_pages 0 st = Inr st"
| "new_pages (Suc n) st =
     (case NewPgImp st of
        Inl e \<Rightarrow> Inl e
      | Inr (pid, f, st') \<Rightarrow> new_pages n st')"

definition bpm_wf :: "'d BufferPoolManagerInstance \<Rightarrow> bool" where
  \<comment> \<open>What holds of a pool between calls: \<open>pages_\<close> has \<open>pool_size_\<close> frames, the
      replacer was made for that many, free and tracked frames are frames of the pool, and a
      frame that nobody pins is in the free list or evictable.\<close>
  "bpm_wf st \<longleftrightarrow>
     length (pages st) = pool_size st
     \<and> replacer_size (replacer st) = pool_size st
     \<and> pool_size st < 2 ^ 31
     \<and> replacer_wf (replacer st)
     \<and> list_all (valid_frame st) (free_list st)
     \<and> list_all (valid_frame st) (history_list (replacer st))
     \<and> list_all (valid_frame st) (cache_list (replacer st))
     \<and> list_all (\<lambda>i. pin_count (pages st ! i) = 0 \<longrightarrow>
                        int i \<in> set (free_list st) \<or> is_evictable (replacer st) (int i))
          [0..<pool_size st]"

definition fresh_inv :: "nat \<Rightarrow> nat \<Rightarrow> 'd BufferPoolManagerInstance \<Rightarrow> bool" where
  \<comment> \<open>A pool of \<open>P\<close> frames after \<open>n\<close> calls of \<open>NewPgImp\<close> and nothing else.\<close>
  "fresh_inv P n st \<longleftrightarrow>
     pool_size st = P \<and> length (pages st) = P \<and> replacer_size (replacer st) = P
     \<and> free_list st = map int [n..<P]
     \<and> (\<forall>i<P. pin_count (pages st ! i) = (if i < n then 1 else 0))"

definition dirty_pool :: "int BufferPoolManagerInstance" where
  \<comment> \<open>A pool of one frame that holds page 0, modified and unpinned: what
      \<open>NewPage\<close>, a write of 7 and \<open>UnpinPage(0, true)\<close> leave.\<close>
  "dirty_pool =
     \<lparr>pool_size = 1,
      pages = [\<lparr>data = 7, page_id = 0, pin_count = 0, is_dirty = True\<rparr>],
      page_table = [0 \<mapsto> 0],
      replacer = \<lparr>replacer_size = 1, replacer_k = 2, curr_size = 1, history_list = [0],
                   cache_list = [],
                   entries = [0 \<mapsto> \<lparr>in_count = 1, evictable = True\<rparr>]\<rparr>,
      free_list = [], next_page_id = 1, disk = (\<lambda>_. 0), disk_writes = []\<rparr>"

section \<open>B+-tree pages (src/storage/page/b\_plus\_tree\_internal\_page.cpp, b\_plus\_tree\_leaf\_page.cpp)\<close>

text \<open>
  Keys are compared as integers (the comparator of \<open>GenericKey\<close>) and a record id is an
  integer. A page is the header fields and the array that follows them in the frame. The array
  is the list of the slots written so far; every other slot of a frame reads as zero, as
  \<open>ResetMemory\<close> left it, and a slot beyond \<open>size\<close> keeps what was last written to
  it. A negative index, undefined in C++, reads as zero and is not written.

  The header accessors (b\_plus\_tree\_page.cpp) are not among the sources; they are the
  field reads and writes their names say. \<open>GetMinSize\<close> is not among the sources either:
  see \<open>leaf_min_size\<close> and \<open>internal_min_size\<close> below.
\<close>

datatype IndexPageType = INVALID_INDEX_PAGE | LEAF_PAGE | INTERNAL_PAGE

datatype Operation = SEARCH | INSERT | DELETE

type_synonym MappingType = "int \<times> int"

record BPlusTreePage =
  page_type :: IndexPageType
  psize :: int
  max_size :: int
  parent_page_id :: int
  tree_page_id :: int
  leaf_next_page_id :: int
  array :: "MappingType list"



definition array_get :: "MappingType list \<Rightarrow> int \<Rightarrow> MappingType" where
  "array_get a i = (if 0 \<le> i \<and> nat i < length a then a ! nat i else (0, 0))"

definition array_set :: "MappingType list \<Rightarrow> int \<Rightarrow> MappingType \<Rightarrow> MappingType list" where
  "array_set a i x =
     (if i < 0 then a
      else (a @ replicate (nat i + 1 - length a) (0, 0))[nat i := x])"

fun scan :: "(int \<Rightarrow> bool) \<Rightarrow> int \<Rightarrow> nat \<Rightarrow> int" where
  \<comment> \<open>\<open>while (idx < size && P(idx)) ++idx\<close>, with \<open>size - idx\<close> passes left.\<close>
  "scan P idx 0 = idx"
| "scan P idx (Suc n) = (if P idx then scan P (idx + 1) n else idx)"

definition shift_right :: "MappingType list \<Rightarrow> int \<Rightarrow> int \<Rightarrow> MappingType list" where
  \<comment> \<open>\<open>for (i = hi; i > lo; i--) array_[i] = array_[i - 1]\<close>\<close>
  "shift_right a lo hi = fold (\<lambda>i b. array_set b i (array_get b (i - 1))) (rev [lo + 1..hi]) a"

definition shift_left :: "MappingType list \<Rightarrow> int \<Rightarrow> int \<Rightarrow> MappingType list" where
  \<comment> \<open>\<open>for (i = lo; i < hi; i++) array_[i] = array_[i + 1]\<close>\<close>
  "shift_left a lo hi = fold (\<lambda>i b. array_set b i (array_get b (i + 1))) [lo..hi - 1] a"

definition IsLeafPage :: "BPlusTreePage \<Rightarrow> bool" where
  "IsLeafPage p \<longleftrightarrow> page_type p = LEAF_PAGE"

definition IsRootPage :: "BPlusTreePage \<Rightarrow> bool" where
  "IsRootPage p \<longleftrightarrow> parent_page_id p = INVALID_PAGE_ID"

definition IncreaseSize :: "BPlusTreePage \<Rightarrow> int \<Rightarrow> BPlusTreePage" where
  "IncreaseSize p amount = p\<lparr>psize := psize p + amount\<rparr>"

definition DecreaseSize :: "BPlusTreePage \<Rightarrow> int \<Rightarrow> BPlusTreePage" where
  "DecreaseSize p amount = p\<lparr>psize := psize p - amount\<rparr>"

definition KeyAt :: "BPlusTreePage \<Rightarrow> int \<Rightarrow> int" where
  "KeyAt p index = fst (array_get (array p) index)"

definition ValueAt :: "BPlusTreePage \<Rightarrow> int \<Rightarrow> int" where
  "ValueAt p index = snd (array_get (array p) index)"

definition SetKeyAt :: "BPlusTreePage \<Rightarrow> int \<Rightarrow> int \<Rightarrow> BPlusTreePage" where
  "SetKeyAt p index key = p\<lparr>array := array_set (array p) index (key, ValueAt p index)\<rparr>"

definition SetValueAt :: "BPlusTreePage \<Rightarrow> int \<Rightarrow> int \<Rightarrow> BPlusTreePage" where
  "SetValueAt p index val = p\<lparr>array := array_set (array p) index (KeyAt p index, val)\<rparr>"

subsection \<open>Internal pages\<close>



definition Internal_Remove :: "BPlusTreePage \<Rightarrow> int \<Rightarrow> bool \<times> BPlusTreePage" where
  "Internal_Remove p key =
     (let idx = scan (\<lambda>i. KeyAt p i \<noteq> key) 1 (nat (psize p - 1))
      in if KeyAt p idx \<noteq> key then (False, p)
         else (True, DecreaseSize (p\<lparr>array := shift_left (array p) idx (psize p - 1)\<rparr>) 1))"

definition Internal_TotalToLeft :: "BPlusTreePage \<Rightarrow> BPlusTreePage" where
  "Internal_TotalToLeft p = DecreaseSize (p\<lparr>array := shift_left (array p) 0 (psize p - 1)\<rparr>) 1"

definition Internal_TotalToRight :: "BPlusTreePage \<Rightarrow> BPlusTreePage" where
  "Internal_TotalToRight p = IncreaseSize (p\<lparr>array := shift_right (array p) 0 (psize p)\<rparr>) 1"

definition FindValueIndex :: "BPlusTreePage \<Rightarrow> int \<Rightarrow> int" where
  "FindValueIndex p val =
     (case find (\<lambda>i. ValueAt p i = val) [0..psize p - 1] of Some i \<Rightarrow> i | None \<Rightarrow> -1)"

definition Internal_MoveAll :: "BPlusTreePage \<Rightarrow> BPlusTreePage \<Rightarrow> int \<Rightarrow> BPlusTreePage \<times> BPlusTreePage" where
  \<comment> \<open>\<open>this->MoveAll(new_page, idx)\<close>; returns \<open>this\<close> and \<open>new_page\<close>.\<close>
  "Internal_MoveAll this new_page idx =
     (this\<lparr>psize := 0\<rparr>,
      fold (\<lambda>i np. IncreaseSize
                      (SetValueAt (SetKeyAt np (idx + (i - 1)) (KeyAt this i))
                         (idx + (i - 1)) (ValueAt this i)) 1)
        [1..psize this - 1] new_page)"

subsection \<open>Leaf pages\<close>


definition SetKeyValue :: "BPlusTreePage \<Rightarrow> int \<Rightarrow> int \<Rightarrow> int \<Rightarrow> BPlusTreePage" where
  \<comment> \<open>\<open>*(array_ + index) = {key, value}; IncreaseSize(1);\<close>\<close>
  "SetKeyValue p index key val =
     IncreaseSize (p\<lparr>array := array_set (array p) index (key, val)\<rparr>) 1"


definition Leaf_Insert :: "BPlusTreePage \<Rightarrow> int \<Rightarrow> int \<Rightarrow> error + BPlusTreePage" where
  "Leaf_Insert p key val =
     (if psize p \<ge> max_size p then Inl LogicError
      else
        let idx = scan (\<lambda>i. KeyAt p i < key) 0 (nat (psize p));
            p1 = p\<lparr>array := shift_right (array p) idx (psize p)\<rparr>
        in Inr (SetKeyValue p1 idx key val))"

definition Leaf_Remove :: "BPlusTreePage \<Rightarrow> int \<Rightarrow> bool \<times> BPlusTreePage" where
  \<comment> \<open>Modelled from the spec: the \<open>Remove\<close> that returns \<open>bool\<close> is not among the
      sources. It removes the key from the leaf, keeping the order of the others, and returns
      false, changing nothing, when the key is absent.\<close>
  "Leaf_Remove p key =
     (let idx = scan (\<lambda>i. KeyAt p i \<noteq> key) 0 (nat (psize p))
      in if idx \<ge> psize p then (False, p)
         else (True, DecreaseSize (p\<lparr>array := shift_left (array p) idx (psize p - 1)\<rparr>) 1))"


definition Leaf_MoveAll :: "BPlusTreePage \<Rightarrow> BPlusTreePage \<Rightarrow> int \<Rightarrow> BPlusTreePage \<times> BPlusTreePage" where
  \<comment> \<open>Modelled from the spec: the leaf's \<open>MoveAll\<close> is not among the sources. A merge
      moves every entry of the right page to the end of the left one, as the internal page's
      \<open>MoveAll\<close> does from its entry 1 on, and leaves the right page empty.\<close>
  "Leaf_MoveAll this new_page idx =
     (this\<lparr>psize := 0\<rparr>,
      fold (\<lambda>i np. SetKeyValue np (idx + i) (KeyAt this i) (ValueAt this i))
        [0..psize this - 1] new_page)"

definition Leaf_TotalToLeft :: "BPlusTreePage \<Rightarrow> BPlusTreePage" where
  \<comment> \<open>Modelled from the spec: the leaf's \<open>TotalToLeft\<close> is not among the sources. The
      right sibling gives up its first entry; as in the internal page, the others move one slot
      to the left.\<close>
  "Leaf_TotalToLeft p = DecreaseSize (p\<lparr>array := shift_left (array p) 0 (psize p - 1)\<rparr>) 1"

section \<open>B+-tree (src/storage/index/b\_plus\_tree.cpp)\<close>

text \<open>
  The tree reaches its pages through the buffer pool. Here the pool and the disk behind it
  are the association list \<open>tree_pages\<close> from page ids to pages: the pool is taken to be
  large enough that no \<open>FetchPage\<close> or \<open>NewPage\<close> fails and no frame is evicted while
  an operation holds a pointer into it, and pin counts are not modelled. A pointer to a page
  is its page id, \<open>NewPage\<close> hands out the next id with zeroed memory, \<open>DeletePage\<close>
  removes the page, and fetching an id that has no page is the error \<open>OutOfRange\<close>.

  \<open>Insert\<close> and \<open>Remove\<close> are called with a transaction, the same one for every
  call; its page set and its deleted page set are \<open>page_set\<close> and
  \<open>deleted_page_set\<close>. A page pointer in the page set is \<open>Some\<close> of its page id and
  the null pointer is \<open>None\<close>.

  The operations run one after the other on one thread. \<open>wlatched\<close> is the set of the
  pages whose latch is held for writing and \<open>root_page_id_latch\<close> tells whether the latch
  of the root page id is; a latch that \<open>Remove\<close> has not released when it returns is
  still held in the next call. Asking for a latch that is held for writing never returns, since
  nothing else runs that could release it: this is the error \<open>Blocked\<close>. Latches held for
  reading are not counted: \<open>GetLeafPage\<close>, \<open>GetValue\<close>, \<open>Begin\<close> and
  \<open>End\<close> release each one before they ask for a write latch or hand it to an iterator,
  whose destructor releases it, and no iterator is alive when \<open>Insert\<close> or \<open>Remove\<close>
  is called. So taking a read latch is the test that the latch is not held for writing.

  \<open>GetMinSize\<close> is not among the sources. What it returns for a page that is not the
  root depends on the kind of page only, since all leaves of a tree have one \<open>max_size\<close>
  and all internal pages another: \<open>leaf_min_size\<close> and \<open>internal_min_size\<close> are these
  two values, parameters of the tree.
\<close>

record BPlusTree =
  root_page_id :: int
  leaf_max_size :: int
  internal_max_size :: int
  leaf_min_size :: int
  internal_min_size :: int
  tree_pages :: "(int \<times> BPlusTreePage) list"
  bpm_next_page_id :: int
  header_record :: "int option"
  deleted_page_set :: "int list"
  page_set :: "int option list"
  root_page_id_latch :: bool
  wlatched :: "int set"


definition spec_internal_min_size :: "int \<Rightarrow> int" where
  \<comment> \<open>Modelled from the spec: \<open>GetMinSize\<close> is not among the sources; for an internal
      page the minimum size is \<open>(max_size + 1) / 2\<close>, rounded up.\<close>
  "spec_internal_min_size msize = (msize + 2) div 2"


definition sbind :: "error + 'a \<Rightarrow> ('a \<Rightarrow> error + 'b) \<Rightarrow> error + 'b" where
  "sbind m f = (case m of Inl e \<Rightarrow> Inl e | Inr x \<Rightarrow> f x)"

definition FetchPage :: "BPlusTree \<Rightarrow> int \<Rightarrow> error + BPlusTreePage" where
  "FetchPage t pid = (case map_of (tree_pages t) pid of None \<Rightarrow> Inl OutOfRange | Some p \<Rightarrow> Inr p)"

definition put_page :: "BPlusTree \<Rightarrow> int \<Rightarrow> BPlusTreePage \<Rightarrow> BPlusTree" where
  \<comment> \<open>A write through a pointer to the page with this id.\<close>
  "put_page t pid p = t\<lparr>tree_pages := AList.update pid p (tree_pages t)\<rparr>"


definition DeletePage :: "BPlusTree \<Rightarrow> int \<Rightarrow> BPlusTree" where
  "DeletePage t pid = t\<lparr>tree_pages := AList.delete pid (tree_pages t)\<rparr>"

definition UpdateRootPageId :: "BPlusTree \<Rightarrow> int \<Rightarrow> BPlusTree" where
  \<comment> \<open>Modelled from the spec: \<open>HeaderPage\<close> is not among the sources; the header page
      holds the pair (index name, root page id), written by \<open>InsertRecord\<close> when there is
      none for the name and by \<open>UpdateRecord\<close> when there is one.\<close>
  "UpdateRootPageId t insert_record =
     (if insert_record \<noteq> 0
      then (if header_record t = None then t\<lparr>header_record := Some (root_page_id t)\<rparr> else t)
      else (if header_record t \<noteq> None then t\<lparr>header_record := Some (root_page_id t)\<rparr> else t))"

subsection \<open>Latches\<close>

definition RLatch :: "BPlusTree \<Rightarrow> int \<Rightarrow> error + BPlusTree" where
  \<comment> \<open>\<open>page->RLatch()\<close>\<close>
  "RLatch t pid = (if pid \<in> wlatched t then Inl Blocked else Inr t)"

definition WLatch :: "BPlusTree \<Rightarrow> int \<Rightarrow> error + BPlusTree" where
  \<comment> \<open>\<open>page->WLatch()\<close>\<close>
  "WLatch t pid =
     (if pid \<in> wlatched t then Inl Blocked else Inr (t\<lparr>wlatched := insert pid (wlatched t)\<rparr>))"

definition WUnlatch :: "BPlusTree \<Rightarrow> int \<Rightarrow> BPlusTree" where
  \<comment> \<open>\<open>page->WUnlatch()\<close>\<close>
  "WUnlatch t pid = t\<lparr>wlatched := wlatched t - {pid}\<rparr>"

definition RLock :: "BPlusTree \<Rightarrow> error + BPlusTree" where
  \<comment> \<open>\<open>root_page_id_latch_.RLock()\<close>\<close>
  "RLock t = (if root_page_id_latch t then Inl Blocked else Inr t)"

definition WLock :: "BPlusTree \<Rightarrow> error + BPlusTree" where
  \<comment> \<open>\<open>root_page_id_latch_.WLock()\<close>\<close>
  "WLock t = (if root_page_id_latch t then Inl Blocked else Inr (t\<lparr>root_page_id_latch := True\<rparr>))"

definition WUnlock :: "BPlusTree \<Rightarrow> BPlusTree" where
  \<comment> \<open>\<open>root_page_id_latch_.WUnlock()\<close>\<close>
  "WUnlock t = t\<lparr>root_page_id_latch := False\<rparr>"

definition AddIntoPageSet :: "BPlusTree \<Rightarrow> int option \<Rightarrow> BPlusTree" where
  "AddIntoPageSet t page = t\<lparr>page_set := page_set t @ [page]\<rparr>"

definition ReleaseWLatches :: "BPlusTree \<Rightarrow> BPlusTree" where
  \<comment> \<open>Pops the page set from the front until it is empty, unlatching each page and, for the
      null pointer, the latch of the root page id.\<close>
  "ReleaseWLatches t =
     fold (\<lambda>page s. case page of None \<Rightarrow> WUnlock s | Some pid \<Rightarrow> WUnlatch s pid)
       (page_set t) (t\<lparr>page_set := []\<rparr>)"

definition holding :: "BPlusTree \<Rightarrow> int set \<Rightarrow> int option list \<Rightarrow> BPlusTree" where
  \<comment> \<open>The tree \<open>t\<close> in the hands of an operation that found the pages \<open>W0\<close>
      write-latched and now has \<open>ps\<close> as its page set, holding the latch of each of its
      entries.\<close>
  "holding t W0 ps =
     t\<lparr>page_set := ps, root_page_id_latch := None \<in> set ps,
       wlatched := W0 \<union> {p. Some p \<in> set ps}\<rparr>"

subsection \<open>Search\<close>

definition IsEmpty :: "BPlusTree \<Rightarrow> bool" where
  "IsEmpty t \<longleftrightarrow> root_page_id t = INVALID_PAGE_ID"

definition GetMinSize :: "BPlusTree \<Rightarrow> BPlusTreePage \<Rightarrow> int" where
  "GetMinSize t p = (if IsLeafPage p then leaf_min_size t else internal_min_size t)"

definition IsPageSafe :: "BPlusTree \<Rightarrow> BPlusTreePage \<Rightarrow> Operation \<Rightarrow> bool" where
  "IsPageSafe t p op =
     (case op of
        SEARCH \<Rightarrow> True
      | INSERT \<Rightarrow>
          if IsLeafPage p then psize p < max_size p - 1 else psize p < max_size p
      | DELETE \<Rightarrow>
          if IsRootPage p then (if IsLeafPage p then psize p > 1 else psize p > 2)
          else psize p > GetMinSize t p)"

definition lookup_child :: "BPlusTreePage \<Rightarrow> int \<Rightarrow> int" where
  \<comment> \<open>The child \<open>GetLeafPage\<close> descends to: the one before the first separator greater
      than the key, the last child when there is none.\<close>
  "lookup_child p key =
     (case find (\<lambda>i. KeyAt p i > key) [1..psize p - 1] of
        Some i \<Rightarrow> ValueAt p (i - 1)
      | None \<Rightarrow> ValueAt p (psize p - 1))"

definition latch_page :: "BPlusTree \<Rightarrow> BPlusTreePage \<Rightarrow> int \<Rightarrow> Operation \<Rightarrow> bool \<Rightarrow> error + BPlusTree" where
  \<comment> \<open>What the loop of \<open>GetLeafPage\<close> does with the page it has fetched, before it looks
      at its kind. With \<open>first\<close>, the latch of the page before, or of the root page id, was
      taken for reading and is released here.\<close>
  "latch_page t tree_page pid op first =
     (if first then
        (if IsLeafPage tree_page \<and> op \<noteq> SEARCH
         then sbind (WLatch t pid) (\<lambda>t1. Inr (AddIntoPageSet t1 (Some pid)))
         else RLatch t pid)
      else if op = SEARCH then Inl LogicError
      else
        sbind (WLatch t pid) (\<lambda>t1.
          Inr (AddIntoPageSet (if IsPageSafe t1 tree_page op then ReleaseWLatches t1 else t1)
                 (Some pid))))"

fun GetLeafPage_from ::
  "nat \<Rightarrow> BPlusTree \<Rightarrow> int \<Rightarrow> Operation \<Rightarrow> bool \<Rightarrow> int \<Rightarrow> error + (int \<times> BPlusTree)" where
  \<comment> \<open>The \<open>while (true)\<close> loop of \<open>GetLeafPage\<close> from the page \<open>next_pid\<close> on;
      every page fetched and the restart from the root take one unit of fuel. Returns the id
      of the leaf.\<close>
  "GetLeafPage_from 0 t key op first next_pid = Inl OutOfFuel"
| "GetLeafPage_from (Suc n) t key op first next_pid =
     sbind (FetchPage t next_pid) (\<lambda>tree_page.
     sbind (latch_page t tree_page next_pid op first) (\<lambda>t1.
       if IsLeafPage tree_page then
         (if first \<and> \<not> IsPageSafe t1 tree_page op
          then sbind (WLock (ReleaseWLatches t1)) (\<lambda>t2.
                 let t3 = AddIntoPageSet t2 None
                 in GetLeafPage_from n t3 key op False (root_page_id t3))
          else Inr (next_pid, t1))
       else GetLeafPage_from n t1 key op first (lookup_child tree_page key)))"

definition GetLeafPage ::
  "nat \<Rightarrow> BPlusTree \<Rightarrow> int \<Rightarrow> Operation \<Rightarrow> bool \<Rightarrow> error + (int \<times> BPlusTree)" where
  "GetLeafPage fuel t key op first = GetLeafPage_from fuel t key op first (root_page_id t)"


subsection \<open>Insertion\<close>




subsection \<open>Removal\<close>

definition GetPeerNode :: "BPlusTree \<Rightarrow> BPlusTreePage \<Rightarrow> error + (int \<times> int)" where
  \<comment> \<open>Returns \<open>l_peer_id\<close> and \<open>r_peer_id\<close>.\<close>
  "GetPeerNode t page =
     (if IsRootPage page then Inl LogicError
      else
        sbind (FetchPage t (parent_page_id page)) (\<lambda>parent_page.
          let index = FindValueIndex parent_page (tree_page_id page)
          in if index = -1 then Inl RangeError
             else Inr (if index \<noteq> 0 then ValueAt parent_page (index - 1) else INVALID_PAGE_ID,
                       if index \<noteq> psize parent_page - 1 then ValueAt parent_page (index + 1)
                       else INVALID_PAGE_ID)))"

definition ReDistribution ::
  "BPlusTree \<Rightarrow> int \<Rightarrow> int \<Rightarrow> int \<Rightarrow> bool \<Rightarrow> error + BPlusTree" where
  \<comment> \<open>\<open>ReDistribution(left, right, parent, is_left)\<close>, three different pages given by
      their ids.\<close>
  "ReDistribution t left_id right_id parent_id is_left =
     sbind (FetchPage t left_id) (\<lambda>left.
     sbind (FetchPage t right_id) (\<lambda>right.
     sbind (FetchPage t parent_id) (\<lambda>parent.
       let idx = FindValueIndex parent (tree_page_id right);
           key_between = KeyAt parent idx
       in if is_left then
            (let key_l = KeyAt left (psize left - 1);
                 value_l = ValueAt left (psize left - 1);
                 left1 = DecreaseSize left 1
             in if IsLeafPage left then
                  sbind (Leaf_Insert right key_l value_l) (\<lambda>right1.
                    Inr (put_page (put_page (put_page t left_id left1) right_id right1)
                           parent_id (SetKeyAt parent idx key_l)))
                else
                  (let right1 = SetValueAt (SetKeyAt (Internal_TotalToRight right) 1 key_between)
                                  0 value_l
                   in Inr (put_page (put_page (put_page t left_id left1) right_id right1)
                             parent_id (SetKeyAt parent idx key_l))))
          else if IsLeafPage left then
            (let key_l = KeyAt right 0;
                 value_l = ValueAt right 0;
                 right1 = Leaf_TotalToLeft right;
                 left1 = IncreaseSize (SetKeyValue left (psize left) key_l value_l) 1
             in Inr (put_page (put_page (put_page t left_id left1) right_id right1)
                       parent_id (SetKeyAt parent idx (KeyAt right1 0))))
          else
            (let key_l = KeyAt right 1;
                 value_l = ValueAt right 0;
                 right1 = Internal_TotalToLeft right;
                 left1 = IncreaseSize
                           (SetValueAt (SetKeyAt left (psize left) key_between) (psize left) value_l) 1
             in Inr (put_page (put_page (put_page t left_id left1) right_id right1)
                       parent_id (SetKeyAt parent idx key_l))))))"

definition fetch_peer :: "BPlusTree \<Rightarrow> int \<Rightarrow> error + (BPlusTreePage option \<times> BPlusTree)" where
  \<comment> \<open>\<open>if (peer_id != INVALID_PAGE_ID) { peer = FetchPage(peer_id); peer->WLatch(); }\<close>,
      else the peer is \<open>nullptr\<close>.\<close>
  "fetch_peer t peer_id =
     (if peer_id \<noteq> INVALID_PAGE_ID
      then sbind (FetchPage t peer_id) (\<lambda>p.
           sbind (WLatch t peer_id) (\<lambda>t1. Inr (Some p, t1)))
      else Inr (None, t))"

definition unlatch_peer :: "BPlusTree \<Rightarrow> int \<Rightarrow> BPlusTree" where
  \<comment> \<open>\<open>if (peer != nullptr) { peer->WUnlatch(); UnpinPage(peer); }\<close> for the peer that is
      not selected.\<close>
  "unlatch_peer t peer_id = (if peer_id \<noteq> INVALID_PAGE_ID then WUnlatch t peer_id else t)"

definition merge_fits :: "BPlusTreePage \<Rightarrow> BPlusTreePage option \<Rightarrow> bool" where
  \<comment> \<open>The test for a merge with a peer: the sizes together are below \<open>max_size\<close> for a
      leaf, at most \<open>max_size\<close> for an internal page.\<close>
  "merge_fits page peer =
     (case peer of
        None \<Rightarrow> False
      | Some q \<Rightarrow>
          if IsLeafPage page then psize q + psize page < max_size page
          else psize q + psize page \<le> max_size page)"

definition can_lend :: "BPlusTree \<Rightarrow> BPlusTreePage \<Rightarrow> BPlusTreePage option \<Rightarrow> bool" where
  \<comment> \<open>The test for borrowing from a peer.\<close>
  "can_lend t page peer =
     (case peer of None \<Rightarrow> False | Some q \<Rightarrow> psize q > GetMinSize t page)"

definition DeleteEntry_body ::
  "(BPlusTree \<Rightarrow> int \<Rightarrow> int \<Rightarrow> int \<Rightarrow> error + BPlusTree) \<Rightarrow>
   BPlusTree \<Rightarrow> int \<Rightarrow> int \<Rightarrow> error + BPlusTree" where
  \<comment> \<open>\<open>DeleteEntry(page, key)\<close>, the page given by its id; \<open>merge\<close> is
      \<open>MergePage\<close>. The leaf branch and the internal branch differ in the merge test only
      and are written once. Every way out calls \<open>ReleaseWLatches\<close>, except the last one:
      when the page is not the root and its size is not below the minimum, the function ends
      without it.\<close>
  "DeleteEntry_body merge t pid key =
     sbind (FetchPage t pid) (\<lambda>page0.
       case (if IsLeafPage page0 then Leaf_Remove page0 key else Internal_Remove page0 key) of
         (success, page) \<Rightarrow>
           if \<not> success then Inr (ReleaseWLatches t)
           else
             let t1 = put_page t pid page
             in if IsRootPage page \<and> IsLeafPage page \<and> psize page = 0 then
                  Inr (ReleaseWLatches
                         (t1\<lparr>deleted_page_set := deleted_page_set t1 @ [tree_page_id page],
                             root_page_id := INVALID_PAGE_ID\<rparr>))
                else if IsRootPage page \<and> (psize page > 1 \<or> IsLeafPage page) then
                  Inr (ReleaseWLatches t1)
                else if IsRootPage page \<and> psize page = 1 then
                  (let t2 = t1\<lparr>root_page_id := ValueAt page 0\<rparr>
                   in sbind (FetchPage t2 (root_page_id t2)) (\<lambda>new_root_page.
                        let t3 = put_page t2 (root_page_id t2)
                                   (new_root_page\<lparr>parent_page_id := INVALID_PAGE_ID\<rparr>);
                            t4 = t3\<lparr>deleted_page_set := deleted_page_set t3 @ [tree_page_id page]\<rparr>
                        in Inr (UpdateRootPageId (ReleaseWLatches t4) 0)))
                else if psize page < GetMinSize t1 page then
                  sbind (GetPeerNode t1 page) (\<lambda>(left_peer_id, right_peer_id).
                    if left_peer_id = INVALID_PAGE_ID \<and> right_peer_id = INVALID_PAGE_ID
                    then Inl LogicError
                    else
                      sbind (fetch_peer t1 left_peer_id) (\<lambda>(left_peer_page, t2).
                      sbind (fetch_peer t2 right_peer_id) (\<lambda>(right_peer_page, t3).
                      sbind (FetchPage t3 (parent_page_id page)) (\<lambda>parent_page.
                        if merge_fits page left_peer_page then
                          sbind (merge (unlatch_peer t3 right_peer_id)
                                   left_peer_id pid (parent_page_id page))
                            (\<lambda>t4. Inr (ReleaseWLatches (WUnlatch t4 left_peer_id)))
                        else if merge_fits page right_peer_page then
                          sbind (merge (unlatch_peer t3 left_peer_id)
                                   pid right_peer_id (parent_page_id page))
                            (\<lambda>t4. Inr (ReleaseWLatches (WUnlatch t4 right_peer_id)))
                        else if can_lend t3 page left_peer_page then
                          sbind (ReDistribution (unlatch_peer t3 right_peer_id)
                                   left_peer_id pid (parent_page_id page) True)
                            (\<lambda>t4. Inr (ReleaseWLatches (WUnlatch t4 left_peer_id)))
                        else if can_lend t3 page right_peer_page then
                          sbind (ReDistribution (unlatch_peer t3 left_peer_id)
                                   pid right_peer_id (parent_page_id page) False)
                            (\<lambda>t4. Inr (ReleaseWLatches (WUnlatch t4 right_peer_id)))
                        else Inl LogicError))))
                else Inr t1)"

definition MergePage_body ::
  "(BPlusTree \<Rightarrow> int \<Rightarrow> int \<Rightarrow> error + BPlusTree) \<Rightarrow>
   BPlusTree \<Rightarrow> int \<Rightarrow> int \<Rightarrow> int \<Rightarrow> error + BPlusTree" where
  \<comment> \<open>\<open>MergePage(left, right, parent)\<close>, three different pages given by their ids;
      \<open>delete_entry\<close> is \<open>DeleteEntry\<close>.\<close>
  "MergePage_body delete_entry t left_id right_id parent_id =
     sbind (FetchPage t left_id) (\<lambda>left.
     sbind (FetchPage t right_id) (\<lambda>right.
     sbind (FetchPage t parent_id) (\<lambda>parent.
       let idx = FindValueIndex parent (tree_page_id right);
           key_between = KeyAt parent idx;
           (right1, left1) =
             (if IsLeafPage left then
                (case Leaf_MoveAll right left (psize left) of
                   (r, l) \<Rightarrow> (r, l\<lparr>leaf_next_page_id := leaf_next_page_id r\<rparr>))
              else
                (let l1 = IncreaseSize
                            (SetValueAt (SetKeyAt left (psize left) key_between) (psize left)
                               (ValueAt right 0)) 1
                 in Internal_MoveAll right l1 (psize l1)));
           t1 = put_page (put_page t left_id left1) right_id right1;
           t2 = t1\<lparr>deleted_page_set := deleted_page_set t1 @ [tree_page_id right1]\<rparr>
       in delete_entry t2 parent_id key_between)))"

fun DeleteEntry :: "nat \<Rightarrow> BPlusTree \<Rightarrow> int \<Rightarrow> int \<Rightarrow> error + BPlusTree"
  and MergePage :: "nat \<Rightarrow> BPlusTree \<Rightarrow> int \<Rightarrow> int \<Rightarrow> int \<Rightarrow> error + BPlusTree" where
  \<comment> \<open>The two functions call each other; each call takes one unit of fuel.\<close>
  "DeleteEntry 0 t pid key = Inl OutOfFuel"
| "DeleteEntry (Suc n) t pid key = DeleteEntry_body (MergePage n) t pid key"
| "MergePage 0 t left_id right_id parent_id = Inl OutOfFuel"
| "MergePage (Suc n) t left_id right_id parent_id =
     MergePage_body (DeleteEntry n) t left_id right_id parent_id"

definition BPlusTree_Remove :: "nat \<Rightarrow> BPlusTree \<Rightarrow> int \<Rightarrow> error + BPlusTree" where
  "BPlusTree_Remove fuel t key =
     sbind (RLock t) (\<lambda>t0.
       if IsEmpty t0 then Inr t0
       else
         sbind (GetLeafPage fuel t0 key DELETE True) (\<lambda>(pid, t1).
         sbind (DeleteEntry fuel t1 pid key) (\<lambda>t2.
           Inr ((fold (\<lambda>pid' s. DeletePage s pid') (deleted_page_set t2) t2)
                  \<lparr>deleted_page_set := []\<rparr>))))"

subsection \<open>Index iterator (src/storage/index/index\_iterator.cpp)\<close>

text \<open>
  The iterator holds the page it stands on, here by its id (\<open>None\<close> for the null pointer),
  and the offset in it. \<open>operator++\<close> casts the \<open>Page\<close> pointer itself to the leaf; the
  bytes of a \<open>Page\<close> start at its address, so this is the leaf in the page.
\<close>

record IndexIterator =
  it_page :: "int option"
  it_idx :: int





definition iterator_leaf :: "BPlusTree \<Rightarrow> IndexIterator \<Rightarrow> error + BPlusTreePage" where
  \<comment> \<open>\<open>leafpage_\<close>; using it when \<open>page_\<close> is null is an error.\<close>
  "iterator_leaf t it =
     (case it_page it of None \<Rightarrow> Inl OutOfRange | Some pid \<Rightarrow> FetchPage t pid)"


definition Iterator_incr :: "BPlusTree \<Rightarrow> IndexIterator \<Rightarrow> error + IndexIterator" where
  \<comment> \<open>\<open>operator++\<close>\<close>
  "Iterator_incr t it =
     sbind (iterator_leaf t it) (\<lambda>leaf.
       if it_idx it \<ge> psize leaf - 1 \<and> leaf_next_page_id leaf \<noteq> INVALID_PAGE_ID then
         sbind (FetchPage t (leaf_next_page_id leaf)) (\<lambda>next_page.
         sbind (RLatch t (leaf_next_page_id leaf)) (\<lambda>t1.
           Inr \<lparr>it_page = Some (leaf_next_page_id leaf), it_idx = 0\<rparr>))
       else Inr (it\<lparr>it_idx := it_idx it + 1\<rparr>))"







subsection \<open>The trees of the scenarios\<close>




section \<open>Verification\<close>

subsection \<open>Replacer: bounds checks\<close>

lemma cache_erase_fields [simp]:
  "replacer_size (cache_erase r f) = replacer_size r"
  "replacer_k (cache_erase r f) = replacer_k r"
  "curr_size (cache_erase r f) = curr_size r"
  "entries (cache_erase r f) = entries r"
  by (simp_all add: cache_erase_def)

lemma sint_word_of_nat_32: "sint (word_of_nat n :: 32 word) = signed_take_bit 31 (int n)"
proof -
  have "(word_of_nat n :: 32 word) = word_of_int (int n)" by simp
  then show ?thesis using sint_sbintrunc' [of "int n", where 'a = 32] by simp
qed

lemma int_below_2_31: "n < 2 ^ 31 \<Longrightarrow> int n < 2 ^ 31"
  by simp

lemma int_above_neg_2_31: "- (2 ^ 31) \<le> int n"
  by (rule order_trans [of _ 0]) simp_all

lemma static_cast_int_id: "n < 2 ^ 31 \<Longrightarrow> static_cast_int n = int n"
  unfolding static_cast_int_def sint_word_of_nat_32
  by (rule signed_take_bit_int_eq_self [OF int_above_neg_2_31 int_below_2_31])

text \<open>
  Claim C8. The bounds checks of \<open>RecordAccess\<close>, \<open>SetEvictable\<close> and
  \<open>Remove\<close> raise the invalid-argument error only when the frame id is strictly greater
  than the replacer size; a frame id equal to the replacer size is accepted, and
  \<open>RecordAccess\<close> then records an entry for it, although the valid frame indices are
  \<open>0 .. num_frames - 1\<close>. The replacer size is one that \<open>static_cast<int>\<close>
  leaves unchanged.
\<close>

theorem replacer_bounds_check:
  assumes "replacer_size r < 2 ^ 31"
  shows "(RecordAccess r f = Inl InvalidArgument \<longleftrightarrow> f > int (replacer_size r))
       \<and> (SetEvictable r f b = Inl InvalidArgument \<longleftrightarrow> f > int (replacer_size r))
       \<and> (LRUKReplacer_Remove r f = Inl InvalidArgument \<longleftrightarrow> f > int (replacer_size r))
       \<and> (\<exists>r'. RecordAccess r (int (replacer_size r)) = Inr r'
               \<and> entries r' (int (replacer_size r)) \<noteq> None)
       \<and> (\<exists>r'. SetEvictable r (int (replacer_size r)) b = Inr r')
       \<and> (\<exists>r'. LRUKReplacer_Remove r (int (replacer_size r)) = Inr r')"
proof -
  have c: "static_cast_int (replacer_size r) = int (replacer_size r)"
    using assms by (rule static_cast_int_id)
  have 1: "RecordAccess r f = Inl InvalidArgument \<longleftrightarrow> f > int (replacer_size r)"
    by (simp add: RecordAccess_def c Let_def split: prod.splits)
  have 2: "SetEvictable r f b = Inl InvalidArgument \<longleftrightarrow> f > int (replacer_size r)"
    by (simp add: SetEvictable_def c Let_def split: option.splits)
  have 3: "LRUKReplacer_Remove r f = Inl InvalidArgument \<longleftrightarrow> f > int (replacer_size r)"
    by (simp add: LRUKReplacer_Remove_def c split: option.splits)
  have 4: "\<exists>r'. RecordAccess r (int (replacer_size r)) = Inr r'
               \<and> entries r' (int (replacer_size r)) \<noteq> None"
    by (simp add: RecordAccess_def c Let_def split: prod.splits)
  have 5: "\<exists>r'. SetEvictable r (int (replacer_size r)) b = Inr r'"
    by (simp add: SetEvictable_def c Let_def split: option.splits)
  have 6: "\<exists>r'. LRUKReplacer_Remove r (int (replacer_size r)) = Inr r'"
    by (simp add: LRUKReplacer_Remove_def c split: option.splits)
  from 1 2 3 4 5 6 show ?thesis by blast
qed

theorem replacer_bounds_check_witness:
  "RecordAccess (LRUKReplacer_new 7 2) 7 \<noteq> Inl InvalidArgument
   \<and> RecordAccess (LRUKReplacer_new 7 2) 8 = Inl InvalidArgument
   \<and> history_list (projr (RecordAccess (LRUKReplacer_new 7 2) 7)) = [7]"
proof -
  have h: "replacer_size (LRUKReplacer_new 7 2) < 2 ^ 31"
    by (simp add: LRUKReplacer_new_def)
  have s: "replacer_size (LRUKReplacer_new 7 2) = 7" by (simp add: LRUKReplacer_new_def)
  have a: "RecordAccess (LRUKReplacer_new 7 2) 7 \<noteq> Inl InvalidArgument"
    using replacer_bounds_check [OF h, of 7 True] by (simp add: s)
  have b: "RecordAccess (LRUKReplacer_new 7 2) 8 = Inl InvalidArgument"
    using replacer_bounds_check [OF h, of 8 True] by (simp add: s)
  have c: "static_cast_int 7 = 7" by (rule static_cast_int_id [of 7, simplified])
  have d: "history_list (projr (RecordAccess (LRUKReplacer_new 7 2) 7)) = [7]"
    by (simp add: RecordAccess_def LRUKReplacer_new_def c subscript_def default_entry_def Let_def)
  from a b d show ?thesis by blast
qed

subsection \<open>Replacer: accesses when k is 1\<close>

text \<open>
  With \<open>k_ = 1\<close> the second access of a frame moves it from the history list to the cache
  list, so that it is evicted once; and \<open>Remove\<close> of a frame accessed once takes it out
  of the history list.
\<close>

lemma RecordAccess_twice_k_1:
  "(case RecordAccess (LRUKReplacer_new 7 1) 3 of
      Inl e \<Rightarrow> None
    | Inr r \<Rightarrow>
        (case RecordAccess r 3 of
           Inl e \<Rightarrow> None
         | Inr r' \<Rightarrow> Some (history_list r', cache_list r', fst (Evict r'), fst (Evict (snd (Evict r'))))))
   = Some ([], [3], Some 3, None)"
  by (simp add: RecordAccess_def LRUKReplacer_new_def static_cast_int_id subscript_def
        default_entry_def cache_erase_def Evict_def erase_last_def)

lemma Remove_k_1:
  "(case RecordAccess (LRUKReplacer_new 7 1) 3 of
      Inl e \<Rightarrow> None
    | Inr r \<Rightarrow>
        (case LRUKReplacer_Remove r 3 of
           Inl e \<Rightarrow> None
         | Inr r' \<Rightarrow> Some (history_list r', cache_list r')))
   = Some ([], [])"
  by (simp add: RecordAccess_def LRUKReplacer_Remove_def LRUKReplacer_new_def static_cast_int_id
        subscript_def default_entry_def cache_erase_def)

subsection \<open>Replacer: eviction order\<close>

lemma evict_scan_tracked:
  "set xs \<subseteq> dom es \<Longrightarrow> evict_scan es xs = (find (ev es) xs, es)"
  by (induction xs) (auto simp: subscript_def ev_def split: option.splits)

lemma find_Some_split:
  "find P xs = Some f \<Longrightarrow> \<exists>ys zs. xs = ys @ f # zs \<and> P f \<and> (\<forall>y\<in>set ys. \<not> P y)"
proof (induction xs)
  case Nil
  then show ?case by simp
next
  case (Cons x xs)
  show ?case
  proof (cases "P x")
    case True
    with Cons.prems have "x = f" by simp
    with True have "x # xs = [] @ f # xs \<and> P f \<and> (\<forall>y\<in>set []. \<not> P y)" by simp
    then show ?thesis by blast
  next
    case False
    with Cons.prems have "find P xs = Some f" by simp
    from Cons.IH [OF this] obtain ys zs
      where "xs = ys @ f # zs" "P f" "\<forall>y\<in>set ys. \<not> P y" by blast
    with False have "x # xs = (x # ys) @ f # zs \<and> P f \<and> (\<forall>y\<in>set (x # ys). \<not> P y)"
      by simp
    then show ?thesis by blast
  qed
qed

lemma find_rev_Some_split:
  assumes "find P (rev xs) = Some f"
  shows "\<exists>ys zs. xs = ys @ f # zs \<and> P f \<and> (\<forall>z\<in>set zs. \<not> P z)"
proof -
  from find_Some_split [OF assms] obtain ys zs
    where r: "rev xs = ys @ f # zs" and p: "P f" and n: "\<forall>y\<in>set ys. \<not> P y" by blast
  from r have "rev (rev xs) = rev (ys @ f # zs)" by simp
  then have "xs = rev zs @ f # rev ys" by simp
  with p n show ?thesis by (metis set_rev)
qed

lemma Evict_wf:
  assumes "replacer_wf r"
  shows "Evict r =
     (case find (is_evictable r) (rev (history_list r)) of
        Some f \<Rightarrow> (Some f, r\<lparr>curr_size := curr_size r - 1,
                     history_list := erase_last f (history_list r),
                     entries := (entries r)(f := None)\<rparr>)
      | None \<Rightarrow>
          (case find (is_evictable r) (rev (cache_list r)) of
             Some f \<Rightarrow> (Some f, r\<lparr>curr_size := curr_size r - 1,
                          cache_list := erase_last f (cache_list r),
                          entries := (entries r)(f := None)\<rparr>)
           | None \<Rightarrow> (None, r)))"
proof -
  have h: "set (rev (history_list r)) \<subseteq> dom (entries r)"
    and c: "set (rev (cache_list r)) \<subseteq> dom (entries r)"
    using assms by (auto simp: replacer_wf_def tracked_def)
  have e: "is_evictable r = ev (entries r)" by (rule ext) (simp add: is_evictable_def)
  show ?thesis
    unfolding Evict_def evict_scan_tracked [OF h] e
    by (simp add: evict_scan_tracked [OF c] split: option.splits)
qed

text \<open>
  Claim C5. In a replacer whose tracked frames are exactly the frames of its two lists,
  \<open>Evict\<close> returns a frame exactly when some tracked frame is evictable. The frame
  is the evictable frame nearest the back of the history list (the one inserted earliest) when
  the history list holds an evictable frame, and otherwise the evictable frame nearest the back of
  the cache list (the one refreshed least recently). When no tracked frame is evictable,
  \<open>Evict\<close> returns false and the replacer is unchanged.
\<close>

theorem Evict_oldest_evictable:
  assumes "replacer_wf r"
  shows "((\<exists>f. fst (Evict r) = Some f) \<longleftrightarrow> (\<exists>f\<in>tracked r. is_evictable r f))
       \<and> (\<forall>f. fst (Evict r) = Some f \<longrightarrow>
             (if \<exists>g\<in>set (history_list r). is_evictable r g
              then \<exists>ys zs. history_list r = ys @ f # zs \<and> is_evictable r f
                        \<and> (\<forall>z\<in>set zs. \<not> is_evictable r z)
              else \<exists>ys zs. cache_list r = ys @ f # zs \<and> is_evictable r f
                        \<and> (\<forall>z\<in>set zs. \<not> is_evictable r z)))
       \<and> ((\<forall>f\<in>tracked r. \<not> is_evictable r f) \<longrightarrow> Evict r = (None, r))"
proof -
  note E = Evict_wf [OF assms]
  have tr: "tracked r = set (history_list r) \<union> set (cache_list r)"
    using assms by (simp add: replacer_wf_def)
  have none_h: "find (is_evictable r) (rev (history_list r)) = None
                  \<longleftrightarrow> \<not> (\<exists>g\<in>set (history_list r). is_evictable r g)"
    by (auto simp: find_None_iff)
  have none_c: "find (is_evictable r) (rev (cache_list r)) = None
                  \<longleftrightarrow> \<not> (\<exists>g\<in>set (cache_list r). is_evictable r g)"
    by (auto simp: find_None_iff)
  have 1: "(\<exists>f. fst (Evict r) = Some f) \<longleftrightarrow> (\<exists>f\<in>tracked r. is_evictable r f)"
  proof (cases "find (is_evictable r) (rev (history_list r))")
    case None
    note nh = this
    show ?thesis
    proof (cases "find (is_evictable r) (rev (cache_list r))")
      case None
      with nh none_h none_c show ?thesis by (auto simp: E tr)
    next
      case (Some f)
      then have "\<exists>g\<in>set (cache_list r). is_evictable r g" using none_c by auto
      with nh Some show ?thesis by (auto simp: E tr)
    qed
  next
    case (Some f)
    then have "\<exists>g\<in>set (history_list r). is_evictable r g" using none_h by auto
    with Some show ?thesis by (auto simp: E tr)
  qed
  have 2: "fst (Evict r) = Some f \<longrightarrow>
             (if \<exists>g\<in>set (history_list r). is_evictable r g
              then \<exists>ys zs. history_list r = ys @ f # zs \<and> is_evictable r f
                        \<and> (\<forall>z\<in>set zs. \<not> is_evictable r z)
              else \<exists>ys zs. cache_list r = ys @ f # zs \<and> is_evictable r f
                        \<and> (\<forall>z\<in>set zs. \<not> is_evictable r z))" for f
  proof (cases "find (is_evictable r) (rev (history_list r))")
    case None
    with none_h have no: "\<not> (\<exists>g\<in>set (history_list r). is_evictable r g)" by simp
    show ?thesis
    proof
      assume a: "fst (Evict r) = Some f"
      with None have "find (is_evictable r) (rev (cache_list r)) = Some f"
        by (simp add: E split: option.splits)
      from find_rev_Some_split [OF this] no show "if \<exists>g\<in>set (history_list r). is_evictable r g
              then \<exists>ys zs. history_list r = ys @ f # zs \<and> is_evictable r f
                        \<and> (\<forall>z\<in>set zs. \<not> is_evictable r z)
              else \<exists>ys zs. cache_list r = ys @ f # zs \<and> is_evictable r f
                        \<and> (\<forall>z\<in>set zs. \<not> is_evictable r z)" by simp
    qed
  next
    case (Some g)
    with none_h have yes: "\<exists>g\<in>set (history_list r). is_evictable r g" by auto
    show ?thesis
    proof
      assume a: "fst (Evict r) = Some f"
      with Some have "g = f" by (simp add: E)
      with Some have "find (is_evictable r) (rev (history_list r)) = Some f" by simp
      from find_rev_Some_split [OF this] yes show "if \<exists>g\<in>set (history_list r). is_evictable r g
              then \<exists>ys zs. history_list r = ys @ f # zs \<and> is_evictable r f
                        \<and> (\<forall>z\<in>set zs. \<not> is_evictable r z)
              else \<exists>ys zs. cache_list r = ys @ f # zs \<and> is_evictable r f
                        \<and> (\<forall>z\<in>set zs. \<not> is_evictable r z)" by simp
    qed
  qed
  have 3: "(\<forall>f\<in>tracked r. \<not> is_evictable r f) \<longrightarrow> Evict r = (None, r)"
  proof
    assume "\<forall>f\<in>tracked r. \<not> is_evictable r f"
    with tr none_h none_c
    have "find (is_evictable r) (rev (history_list r)) = None"
         "find (is_evictable r) (rev (cache_list r)) = None" by auto
    then show "Evict r = (None, r)" by (simp add: E)
  qed
  from 1 2 3 show ?thesis by blast
qed


theorem Evict_oldest_evictable_witness:
  "replacer_wf \<lparr>replacer_size = 7, replacer_k = 2, curr_size = 2, history_list = [3, 2],
       cache_list = [1],
       entries = [1 \<mapsto> \<lparr>in_count = 2, evictable = True\<rparr>,
                  2 \<mapsto> \<lparr>in_count = 1, evictable = False\<rparr>,
                  3 \<mapsto> \<lparr>in_count = 1, evictable = True\<rparr>]\<rparr>
   \<and> fst (Evict \<lparr>replacer_size = 7, replacer_k = 2, curr_size = 2, history_list = [3, 2],
       cache_list = [1],
       entries = [1 \<mapsto> \<lparr>in_count = 2, evictable = True\<rparr>,
                  2 \<mapsto> \<lparr>in_count = 1, evictable = False\<rparr>,
                  3 \<mapsto> \<lparr>in_count = 1, evictable = True\<rparr>]\<rparr>) = Some 3"
proof -
  let ?r = "\<lparr>replacer_size = 7, replacer_k = 2, curr_size = 2, history_list = [3, 2],
       cache_list = [1],
       entries = [1 \<mapsto> \<lparr>in_count = 2, evictable = True\<rparr>,
                  2 \<mapsto> \<lparr>in_count = 1, evictable = False\<rparr>,
                  3 \<mapsto> \<lparr>in_count = 1, evictable = True\<rparr>]\<rparr>"
  have wf: "replacer_wf ?r"
    by (auto simp: replacer_wf_def tracked_def)
  have ev3: "is_evictable ?r 3" and ev2: "\<not> is_evictable ?r 2"
    by (simp_all add: is_evictable_def ev_def)
  have tr3: "3 \<in> tracked ?r" by (simp add: tracked_def)
  from Evict_oldest_evictable [OF wf] ev3 tr3 obtain f where f: "fst (Evict ?r) = Some f"
    by blast
  have h: "\<exists>g\<in>set (history_list ?r). is_evictable ?r g" using ev3 by simp
  from Evict_oldest_evictable [OF wf] f h
  obtain ys zs where s: "history_list ?r = ys @ f # zs" and e: "is_evictable ?r f"
    by meson
  from s have "f \<in> set (history_list ?r)" by (metis in_set_conv_decomp)
  then have "f = 3 \<or> f = 2" by auto
  with e ev2 have "f = 3" by blast
  with f wf show ?thesis by simp
qed

subsection \<open>Extendible hash table: the sample test\<close>

lemma SampleTest_inserts_table:
  "insert_each 8 (ExtendibleHashTable_new 2) SampleTest_inserts = Inr SampleTest_table"
  by code_simp

lemma SampleTest_depths:
  "GetLocalDepth SampleTest_table 0 = Inr 2 \<and> GetLocalDepth SampleTest_table 1 = Inr 3
   \<and> GetLocalDepth SampleTest_table 2 = Inr 2 \<and> GetLocalDepth SampleTest_table 3 = Inr 2"
  by code_simp

lemma SampleTest_finds:
  "ExtendibleHashTable_Find SampleTest_table 9 = Inr (Some ''i'')
   \<and> ExtendibleHashTable_Find SampleTest_table 8 = Inr (Some ''h'')
   \<and> ExtendibleHashTable_Find SampleTest_table 2 = Inr (Some ''b'')
   \<and> ExtendibleHashTable_Find SampleTest_table 10 = Inr None"
  by code_simp

lemma SampleTest_removes:
  "map_sum id fst (remove_each SampleTest_table [8, 4, 1, 20]) = Inr [True, True, True, False]"
  by code_simp

text \<open>
  Claim C4. On a table of bucket size 2, inserting the keys 1 to 9 in that order (each
  insert allowed 8 passes of its split loop) succeeds and gives local depths 2, 3, 2, 2 at
  the directory slots 0, 1, 2, 3; then \<open>Find\<close> of 9, 8 and 2 gives the values
  inserted with them and \<open>Find\<close> of 10 finds nothing; then \<open>Remove\<close> of 8, 4 and 1
  each return true and \<open>Remove\<close> of 20 returns false.
\<close>

theorem SampleTest_scenario:
  "\<exists>t. insert_each 8 (ExtendibleHashTable_new 2) SampleTest_inserts = Inr t
     \<and> GetLocalDepth t 0 = Inr 2 \<and> GetLocalDepth t 1 = Inr 3
     \<and> GetLocalDepth t 2 = Inr 2 \<and> GetLocalDepth t 3 = Inr 2
     \<and> ExtendibleHashTable_Find t 9 = Inr (Some ''i'')
     \<and> ExtendibleHashTable_Find t 8 = Inr (Some ''h'')
     \<and> ExtendibleHashTable_Find t 2 = Inr (Some ''b'')
     \<and> ExtendibleHashTable_Find t 10 = Inr None
     \<and> map_sum id fst (remove_each t [8, 4, 1, 20]) = Inr [True, True, True, False]"
  using SampleTest_inserts_table SampleTest_depths SampleTest_finds SampleTest_removes
  by blast

subsection \<open>Extendible hash table: inserting a key that is present\<close>

lemma list_assign_present:
  "list_find xs key = Some v0 \<Longrightarrow>
   \<exists>ys. list_assign xs key val = Some ys \<and> map fst ys = map fst xs
        \<and> list_find ys key = Some val
        \<and> (\<forall>k'. k' \<noteq> key \<longrightarrow> list_find ys k' = list_find xs k')"
proof (induction xs)
  case Nil
  then show ?case by simp
next
  case (Cons x xs)
  obtain k1 v1 where x: "x = (k1, v1)" by (cases x)
  show ?case
  proof (cases "key = k1")
    case True
    then show ?thesis by (simp add: x)
  next
    case False
    with Cons.prems x have "list_find xs key = Some v0" by simp
    from Cons.IH [OF this] obtain ys where
      "list_assign xs key val = Some ys" "map fst ys = map fst xs"
      "list_find ys key = Some val" "\<forall>k'. k' \<noteq> key \<longrightarrow> list_find ys k' = list_find xs k'"
      by blast
    with False show ?thesis by (simp add: x)
  qed
qed

text \<open>
  Claim C10. When \<open>Find\<close> finds the key, \<open>Insert\<close> returns whatever fuel its
  split loop is given, and the table it returns differs from the old one only in the bucket the
  key is in: global depth, bucket size, number of buckets, directory and every other bucket are
  the same, and that bucket keeps its depth, its capacity and its keys in their order. In the
  new table the key maps to the new value and every other key maps to what it mapped to
  before. No split and no directory doubling happens, whether or not the bucket is full.
\<close>

theorem Insert_existing_key:
  assumes "ExtendibleHashTable_Find t key = Inr (Some v0)"
  shows "\<exists>t' p. bucket_ref t (IndexOf t key) = Inr p
           \<and> ExtendibleHashTable_Insert fuel t key val = Inr t'
           \<and> global_depth t' = global_depth t
           \<and> bucket_size t' = bucket_size t
           \<and> num_buckets t' = num_buckets t
           \<and> dir t' = dir t
           \<and> length (buckets t') = length (buckets t)
           \<and> (\<forall>q. q \<noteq> p \<longrightarrow> buckets t' ! q = buckets t ! q)
           \<and> b_depth (buckets t' ! p) = b_depth (buckets t ! p)
           \<and> b_size (buckets t' ! p) = b_size (buckets t ! p)
           \<and> map fst (b_list (buckets t' ! p)) = map fst (b_list (buckets t ! p))
           \<and> (\<forall>k'. k' \<noteq> key \<longrightarrow>
                 Bucket_Find (buckets t' ! p) k' = Bucket_Find (buckets t ! p) k')
           \<and> ExtendibleHashTable_Find t' key = Inr (Some val)
           \<and> (\<forall>k'. k' \<noteq> key \<longrightarrow>
                 ExtendibleHashTable_Find t' k' = ExtendibleHashTable_Find t k')"
proof -
  from assms obtain p where p: "bucket_ref t (IndexOf t key) = Inr p"
    and f: "Bucket_Find (buckets t ! p) key = Some v0"
    by (auto simp: ExtendibleHashTable_Find_def split: sum.splits)
  from p have plen: "p < length (buckets t)"
    by (auto simp: bucket_ref_def split: if_splits)
  let ?b = "buckets t ! p"
  from f have "list_find (b_list ?b) key = Some v0" by (simp add: Bucket_Find_def)
  from list_assign_present [OF this, of val] obtain ys where
    ys: "list_assign (b_list ?b) key val = Some ys"
    and keys: "map fst ys = map fst (b_list ?b)"
    and fk: "list_find ys key = Some val"
    and fo: "\<forall>k'. k' \<noteq> key \<longrightarrow> list_find ys k' = list_find (b_list ?b) k'"
    by blast
  let ?t' = "t\<lparr>buckets := (buckets t)[p := ?b\<lparr>b_list := ys\<rparr>]\<rparr>"
  have ins: "ExtendibleHashTable_Insert fuel t key val = Inr ?t'"
    by (simp add: ExtendibleHashTable_Insert_def p f Bucket_Insert_def ys)
  have idx: "IndexOf ?t' k' = IndexOf t k'" for k'
    by (simp add: IndexOf_def)
  have ref: "bucket_ref ?t' i = bucket_ref t i" for i
    by (simp add: bucket_ref_def)
  have at_p: "buckets ?t' ! p = ?b\<lparr>b_list := ys\<rparr>"
    using plen by simp
  have other: "\<forall>q. q \<noteq> p \<longrightarrow> buckets ?t' ! q = buckets t ! q"
    by simp
  have bf: "\<forall>k'. k' \<noteq> key \<longrightarrow> Bucket_Find (buckets ?t' ! p) k' = Bucket_Find ?b k'"
    using fo plen by (simp add: Bucket_Find_def)
  have find_key: "ExtendibleHashTable_Find ?t' key = Inr (Some val)"
    unfolding ExtendibleHashTable_Find_def idx ref p
    using plen by (simp add: Bucket_Find_def fk)
  have find_other: "ExtendibleHashTable_Find ?t' k' = ExtendibleHashTable_Find t k'"
    if "k' \<noteq> key" for k'
  proof (cases "bucket_ref t (IndexOf t k')")
    case (Inl e)
    then show ?thesis by (simp add: ExtendibleHashTable_Find_def idx ref del: nth_list_update)
  next
    case (Inr q)
    show ?thesis
    proof (cases "q = p")
      case True
      with Inr bf that show ?thesis
        unfolding ExtendibleHashTable_Find_def idx ref by simp
    next
      case False
      with Inr show ?thesis
        unfolding ExtendibleHashTable_Find_def idx ref by simp
    qed
  qed
  have "bucket_ref t (IndexOf t key) = Inr p
           \<and> ExtendibleHashTable_Insert fuel t key val = Inr ?t'
           \<and> global_depth ?t' = global_depth t
           \<and> bucket_size ?t' = bucket_size t
           \<and> num_buckets ?t' = num_buckets t
           \<and> dir ?t' = dir t
           \<and> length (buckets ?t') = length (buckets t)
           \<and> (\<forall>q. q \<noteq> p \<longrightarrow> buckets ?t' ! q = buckets t ! q)
           \<and> b_depth (buckets ?t' ! p) = b_depth (buckets t ! p)
           \<and> b_size (buckets ?t' ! p) = b_size (buckets t ! p)
           \<and> map fst (b_list (buckets ?t' ! p)) = map fst (b_list (buckets t ! p))
           \<and> (\<forall>k'. k' \<noteq> key \<longrightarrow>
                 Bucket_Find (buckets ?t' ! p) k' = Bucket_Find (buckets t ! p) k')
           \<and> ExtendibleHashTable_Find ?t' key = Inr (Some val)
           \<and> (\<forall>k'. k' \<noteq> key \<longrightarrow>
                 ExtendibleHashTable_Find ?t' k' = ExtendibleHashTable_Find t k')"
    using p ins other bf find_key find_other keys plen by simp
  then show ?thesis by blast
qed


theorem Insert_existing_key_witness:
  "ExtendibleHashTable_Find SampleTest_table 1 = Inr (Some ''a'')
   \<and> IsFull (buckets SampleTest_table ! 7)
   \<and> bucket_ref SampleTest_table (IndexOf SampleTest_table 1) = Inr 7
   \<and> (\<exists>t'. ExtendibleHashTable_Insert 0 SampleTest_table 1 ''z'' = Inr t'
           \<and> global_depth t' = 3 \<and> dir t' = [5, 7, 6, 4, 5, 8, 6, 4]
           \<and> ExtendibleHashTable_Find t' 1 = Inr (Some ''z'')
           \<and> ExtendibleHashTable_Find t' 9 = Inr (Some ''i''))"
proof -
  have f: "ExtendibleHashTable_Find SampleTest_table 1 = Inr (Some ''a'')"
    by code_simp
  have full: "IsFull (buckets SampleTest_table ! 7)"
    by code_simp
  have r: "bucket_ref SampleTest_table (IndexOf SampleTest_table 1) = Inr 7"
    by code_simp
  have f9: "ExtendibleHashTable_Find SampleTest_table 9 = Inr (Some ''i'')"
    by code_simp
  have g: "global_depth SampleTest_table = 3" and d: "dir SampleTest_table = [5, 7, 6, 4, 5, 8, 6, 4]"
    by (simp_all add: SampleTest_table_def)
  from Insert_existing_key [OF f, of 0 "''z''"] obtain t' p where
    "ExtendibleHashTable_Insert 0 SampleTest_table 1 ''z'' = Inr t'"
    "global_depth t' = global_depth SampleTest_table"
    "dir t' = dir SampleTest_table"
    "ExtendibleHashTable_Find t' 1 = Inr (Some ''z'')"
    "\<forall>k'. k' \<noteq> 1 \<longrightarrow>
        ExtendibleHashTable_Find t' k' = ExtendibleHashTable_Find SampleTest_table k'"
    by blast
  with f9 g d have "\<exists>t'. ExtendibleHashTable_Insert 0 SampleTest_table 1 ''z'' = Inr t'
           \<and> global_depth t' = 3 \<and> dir t' = [5, 7, 6, 4, 5, 8, 6, 4]
           \<and> ExtendibleHashTable_Find t' 1 = Inr (Some ''z'')
           \<and> ExtendibleHashTable_Find t' 9 = Inr (Some ''i'')"
    by auto
  with f full r show ?thesis by blast
qed

subsection \<open>Buffer pool: frames, eviction and availability\<close>

lemma frame_set_frame_same:
  "valid_frame st f \<Longrightarrow> frame (set_frame st f p) f = p"
  by (simp add: frame_def set_frame_def valid_frame_def)

lemma valid_frame_set_frame [simp]:
  "valid_frame (set_frame st f p) g = valid_frame st g"
  by (simp add: set_frame_def valid_frame_def)

lemma valid_frame_WritePage [simp]:
  "valid_frame (WritePage st pid b) g = valid_frame st g"
  by (simp add: WritePage_def valid_frame_def)

lemma set_frame_fields [simp]:
  "disk (set_frame st f p) = disk st"
  "disk_writes (set_frame st f p) = disk_writes st"
  "page_table (set_frame st f p) = page_table st"
  "replacer (set_frame st f p) = replacer st"
  "free_list (set_frame st f p) = free_list st"
  "next_page_id (set_frame st f p) = next_page_id st"
  "pool_size (set_frame st f p) = pool_size st"
  "length (pages (set_frame st f p)) = length (pages st)"
  by (simp_all add: set_frame_def)

lemma WritePage_fields [simp]:
  "pages (WritePage st pid b) = pages st"
  "page_table (WritePage st pid b) = page_table st"
  "replacer (WritePage st pid b) = replacer st"
  "free_list (WritePage st pid b) = free_list st"
  "next_page_id (WritePage st pid b) = next_page_id st"
  "pool_size (WritePage st pid b) = pool_size st"
  "disk (WritePage st pid b) = (disk st)(pid := b)"
  "disk_writes (WritePage st pid b) = disk_writes st @ [(pid, b)]"
  "frame (WritePage st pid b) f = frame st f"
  by (simp_all add: WritePage_def frame_def)

lemma frame_other_updates [simp]:
  "frame (st\<lparr>page_table := pt\<rparr>) f = frame st f"
  "frame (st\<lparr>replacer := r\<rparr>) f = frame st f"
  "frame (st\<lparr>free_list := fl\<rparr>) f = frame st f"
  "frame (st\<lparr>next_page_id := n\<rparr>) f = frame st f"
  by (simp_all add: frame_def)

lemma valid_frame_other_updates [simp]:
  "valid_frame (st\<lparr>page_table := pt\<rparr>) f = valid_frame st f"
  "valid_frame (st\<lparr>replacer := r\<rparr>) f = valid_frame st f"
  "valid_frame (st\<lparr>free_list := fl\<rparr>) f = valid_frame st f"
  "valid_frame (st\<lparr>next_page_id := n\<rparr>) f = valid_frame st f"
  by (simp_all add: valid_frame_def)

lemma evict_frame_effect:
  assumes "valid_frame st f"
  shows "disk_writes (evict_frame st f) =
           (if is_dirty (frame st f)
            then disk_writes st @ [(page_id (frame st f), data (frame st f))]
            else disk_writes st)"
    and "disk (evict_frame st f) =
           (if is_dirty (frame st f)
            then (disk st)(page_id (frame st f) := data (frame st f))
            else disk st)"
    and "data (frame (evict_frame st f) f) = 0"
    and "is_dirty (frame (evict_frame st f) f) = False"
    and "page_id (frame (evict_frame st f) f) = page_id (frame st f)"
    and "pin_count (frame (evict_frame st f) f) = pin_count (frame st f)"
    and "page_table (evict_frame st f) = (page_table st)(page_id (frame st f) := None)"
    and "valid_frame (evict_frame st f) g = valid_frame st g"
    and "replacer (evict_frame st f) = replacer st"
    and "free_list (evict_frame st f) = free_list st"
    and "next_page_id (evict_frame st f) = next_page_id st"
    and "pool_size (evict_frame st f) = pool_size st"
    and "length (pages (evict_frame st f)) = length (pages st)"
  using assms
  by (auto simp: evict_frame_def Let_def frame_set_frame_same)

lemma acquire_frame_evicts:
  assumes "free_list st = []" and "acquire_frame st = Inr (f, st1)"
  shows "fst (Evict (replacer st)) = Some f \<and> valid_frame st f
         \<and> st1 = evict_frame (st\<lparr>replacer := snd (Evict (replacer st))\<rparr>) f"
  using assms
  by (auto simp: acquire_frame_def split: prod.splits option.splits if_splits)

lemma touch_frame_fields:
  assumes "touch_frame st f = Inr st'"
  shows "pages st' = pages st" "page_table st' = page_table st" "disk st' = disk st"
    "disk_writes st' = disk_writes st" "free_list st' = free_list st"
    "next_page_id st' = next_page_id st" "pool_size st' = pool_size st"
    "frame st' g = frame st g"
  using assms
  by (auto simp: touch_frame_def frame_def split: sum.splits)

lemma NewPgImp_eviction:
  assumes "free_list st = []" and n: "NewPgImp st = Inr (pid, f, st')"
  shows "fst (Evict (replacer st)) = Some f
          \<and> (\<exists>st1. acquire_frame (st\<lparr>next_page_id := next_page_id st + 1\<rparr>) = Inr (f, st1)
                \<and> data (frame st1 f) = 0 \<and> \<not> is_dirty (frame st1 f)
                \<and> page_id (frame st1 f) = page_id (frame st f)
                \<and> page_table st1 = (page_table st)(page_id (frame st f) := None))
          \<and> disk_writes st' =
               (if is_dirty (frame st f)
                then disk_writes st @ [(page_id (frame st f), data (frame st f))]
                else disk_writes st)
          \<and> disk st' =
               (if is_dirty (frame st f)
                then (disk st)(page_id (frame st f) := data (frame st f))
                else disk st)
          \<and> \<not> is_dirty (frame st' f)
          \<and> data (frame st' f) = 0
          \<and> page_table st' = ((page_table st)(page_id (frame st f) := None))(pid \<mapsto> f)"
proof -
  let ?st0 = "st\<lparr>next_page_id := next_page_id st + 1\<rparr>"
  from n obtain st1 where a: "acquire_frame ?st0 = Inr (f, st1)"
    and pid: "pid = next_page_id st"
    and t: "touch_frame (set_frame (st1\<lparr>page_table := (page_table st1)(pid \<mapsto> f)\<rparr>) f
               ((frame st1 f)\<lparr>page_id := pid, pin_count := 1\<rparr>)) f = Inr st'"
    by (auto simp: NewPgImp_def Let_def split: if_splits sum.splits prod.splits)
  have fl: "free_list ?st0 = []" using assms by simp
  from acquire_frame_evicts [OF fl a]
  have ev: "fst (Evict (replacer st)) = Some f" and v: "valid_frame st f"
    and st1: "st1 = evict_frame (?st0\<lparr>replacer := snd (Evict (replacer st))\<rparr>) f"
    by simp_all
  let ?s = "?st0\<lparr>replacer := snd (Evict (replacer st))\<rparr>"
  have vs: "valid_frame ?s f" using v by simp
  note E = evict_frame_effect [OF vs, folded st1]
  have v1: "valid_frame st1 f" using E(8) [of f] vs by simp
  have 2: "\<exists>st1. acquire_frame ?st0 = Inr (f, st1)
           \<and> data (frame st1 f) = 0 \<and> \<not> is_dirty (frame st1 f)
           \<and> page_id (frame st1 f) = page_id (frame st f)
           \<and> page_table st1 = (page_table st)(page_id (frame st f) := None)"
    using a E by auto
  have 3: "disk_writes st' =
               (if is_dirty (frame st f)
                then disk_writes st @ [(page_id (frame st f), data (frame st f))]
                else disk_writes st)"
    using touch_frame_fields(4) [OF t] E(1) by simp
  have 4: "disk st' =
               (if is_dirty (frame st f)
                then (disk st)(page_id (frame st f) := data (frame st f))
                else disk st)"
    using touch_frame_fields(3) [OF t] E(2) by simp
  have 5: "\<not> is_dirty (frame st' f)"
    using touch_frame_fields(8) [OF t, of f] E(4) v1 by (simp add: frame_set_frame_same)
  have 6: "data (frame st' f) = 0"
    using touch_frame_fields(8) [OF t, of f] E(3) v1 by (simp add: frame_set_frame_same)
  have 7: "page_table st' = ((page_table st)(page_id (frame st f) := None))(pid \<mapsto> f)"
    using touch_frame_fields(2) [OF t] E(7) by simp
  from ev 2 3 4 5 6 7 show ?thesis by blast
qed

lemma FetchPgImp_eviction:
  assumes "free_list st = []" and miss: "page_table st pid = None"
    and n: "FetchPgImp st pid = Inr (f, st')"
  shows "fst (Evict (replacer st)) = Some f
          \<and> (\<exists>st1. acquire_frame st = Inr (f, st1)
                \<and> data (frame st1 f) = 0 \<and> \<not> is_dirty (frame st1 f)
                \<and> page_id (frame st1 f) = page_id (frame st f)
                \<and> page_table st1 = (page_table st)(page_id (frame st f) := None))
          \<and> disk_writes st' =
               (if is_dirty (frame st f)
                then disk_writes st @ [(page_id (frame st f), data (frame st f))]
                else disk_writes st)
          \<and> disk st' =
               (if is_dirty (frame st f)
                then (disk st)(page_id (frame st f) := data (frame st f))
                else disk st)
          \<and> \<not> is_dirty (frame st' f)
          \<and> data (frame st' f) = disk st' pid
          \<and> page_table st' = ((page_table st)(page_id (frame st f) := None))(pid \<mapsto> f)"
proof -
  define st3 where "st3 st1 = set_frame (st1\<lparr>page_table := (page_table st1)(pid \<mapsto> f)\<rparr>) f
                   ((frame (st1\<lparr>page_table := (page_table st1)(pid \<mapsto> f)\<rparr>) f)\<lparr>page_id := pid, pin_count := 1\<rparr>)"
    for st1 :: "'a BufferPoolManagerInstance"
  from n miss obtain st1 where a: "acquire_frame st = Inr (f, st1)"
    and t: "touch_frame (set_frame (st3 st1) f ((frame (st3 st1) f)\<lparr>data := disk (st3 st1) pid\<rparr>)) f
            = Inr st'"
    by (auto simp: FetchPgImp_def Let_def st3_def split: if_splits sum.splits prod.splits)
  from acquire_frame_evicts [OF assms(1) a]
  have ev: "fst (Evict (replacer st)) = Some f" and v: "valid_frame st f"
    and st1: "st1 = evict_frame (st\<lparr>replacer := snd (Evict (replacer st))\<rparr>) f"
    by simp_all
  let ?s = "st\<lparr>replacer := snd (Evict (replacer st))\<rparr>"
  have vs: "valid_frame ?s f" using v by simp
  note E = evict_frame_effect [OF vs, folded st1]
  have v1: "valid_frame st1 f" using E(8) [of f] vs by simp
  have v3: "valid_frame (st3 st1) f" using v1 by (simp add: st3_def)
  have 2: "\<exists>st1. acquire_frame st = Inr (f, st1)
           \<and> data (frame st1 f) = 0 \<and> \<not> is_dirty (frame st1 f)
           \<and> page_id (frame st1 f) = page_id (frame st f)
           \<and> page_table st1 = (page_table st)(page_id (frame st f) := None)"
    using a E by auto
  have 3: "disk_writes st' =
               (if is_dirty (frame st f)
                then disk_writes st @ [(page_id (frame st f), data (frame st f))]
                else disk_writes st)"
    using touch_frame_fields(4) [OF t] E(1) by (simp add: st3_def)
  have 4: "disk st' =
               (if is_dirty (frame st f)
                then (disk st)(page_id (frame st f) := data (frame st f))
                else disk st)"
    using touch_frame_fields(3) [OF t] E(2) by (simp add: st3_def)
  have d3: "disk (st3 st1) = disk st'"
    using touch_frame_fields(3) [OF t] by simp
  have 5: "\<not> is_dirty (frame st' f)"
    using touch_frame_fields(8) [OF t, of f] E(4) v1 v3
    by (simp add: frame_set_frame_same) (simp add: st3_def frame_set_frame_same)
  have 6: "data (frame st' f) = disk st' pid"
    using touch_frame_fields(8) [OF t, of f] v3 d3 by (simp add: frame_set_frame_same)
  have 7: "page_table st' = ((page_table st)(page_id (frame st f) := None))(pid \<mapsto> f)"
    using touch_frame_fields(2) [OF t] E(7) by (simp add: st3_def)
  from ev 2 3 4 5 6 7 show ?thesis by blast
qed

lemma find_Some_mem: "find P xs = Some x \<Longrightarrow> x \<in> set xs"
  by (induction xs) (auto split: if_splits)


lemma Evict_replacer_size [simp]: "replacer_size (snd (Evict r)) = replacer_size r"
  by (simp add: Evict_def split: prod.splits option.splits)

lemma is_page_available_iff:
  "is_page_available st \<longleftrightarrow> (\<exists>i<pool_size st. pin_count (pages st ! i) = 0)"
  by (auto simp: is_page_available_def list_ex_iff)

lemma RecordAccess_ok:
  assumes "static_cast_int (replacer_size r0) = n" and "f \<le> n"
  shows "\<exists>r. RecordAccess r0 f = Inr r \<and> replacer_size r = replacer_size r0
             \<and> entries r f \<noteq> None"
  using assms by (simp add: RecordAccess_def Let_def split: prod.splits)

lemma touch_frame_ok:
  assumes "replacer_size (replacer st) < 2 ^ 31" and "f \<le> int (replacer_size (replacer st))"
  shows "\<exists>st'. touch_frame st f = Inr st' \<and> f \<in> tracked (replacer st')
               \<and> \<not> is_evictable (replacer st') f
               \<and> replacer_size (replacer st') = replacer_size (replacer st)"
proof -
  have c: "static_cast_int (replacer_size (replacer st)) = int (replacer_size (replacer st))"
    using assms(1) by (rule static_cast_int_id)
  from RecordAccess_ok [OF c assms(2)] obtain r where r: "RecordAccess (replacer st) f = Inr r"
    and rs: "replacer_size r = replacer_size (replacer st)"
    and re: "entries r f \<noteq> None"
    by blast
  then obtain e where e: "entries r f = Some e" by auto
  have "SetEvictable r f False = Inr (r\<lparr>curr_size := (if evictable e then curr_size r - 1 else curr_size r),
                                          entries := (entries r)(f \<mapsto> e\<lparr>evictable := False\<rparr>)\<rparr>)"
    using assms(2) by (simp add: SetEvictable_def rs c e Let_def)
  with r show ?thesis
    by (simp add: touch_frame_def tracked_def is_evictable_def ev_def rs)
qed

lemma Evict_wf_some:
  assumes wf: "replacer_wf r" and t: "g \<in> tracked r" and e: "is_evictable r g"
  shows "\<exists>f. fst (Evict r) = Some f \<and> f \<in> set (history_list r) \<union> set (cache_list r)"
proof (cases "find (is_evictable r) (rev (history_list r))")
  case (Some f)
  then have "f \<in> set (rev (history_list r))"
    by (rule find_Some_mem)
  with Some show ?thesis by (simp add: Evict_wf [OF wf])
next
  case None
  then have "g \<notin> set (history_list r)" using e by (auto simp: find_None_iff)
  with t wf have "g \<in> set (cache_list r)" by (auto simp: replacer_wf_def)
  with e obtain f where f: "find (is_evictable r) (rev (cache_list r)) = Some f"
    by (cases "find (is_evictable r) (rev (cache_list r))") (auto simp: find_None_iff)
  then have "f \<in> set (rev (cache_list r))" by (rule find_Some_mem)
  with None f show ?thesis by (simp add: Evict_wf [OF wf])
qed

lemma acquire_frame_ok:
  assumes wf: "bpm_wf st" and av: "is_page_available st"
  shows "\<exists>f st1. acquire_frame st = Inr (f, st1) \<and> valid_frame st f \<and> valid_frame st1 f
           \<and> length (pages st1) = length (pages st)
           \<and> replacer_size (replacer st1) = replacer_size (replacer st)"
proof (cases "free_list st")
  case (Cons f fs)
  with wf have "valid_frame st f" by (simp add: bpm_wf_def)
  with Cons show ?thesis by (simp add: acquire_frame_def)
next
  case Nil
  from av obtain i where i: "i < pool_size st" "pin_count (pages st ! i) = 0"
    by (auto simp: is_page_available_iff)
  with wf Nil have e: "is_evictable (replacer st) (int i)"
    by (auto simp: bpm_wf_def list_all_iff)
  then have t: "int i \<in> tracked (replacer st)"
    by (auto simp: is_evictable_def ev_def tracked_def split: option.splits)
  from wf have rw: "replacer_wf (replacer st)" by (simp add: bpm_wf_def)
  from Evict_wf_some [OF rw t e] obtain f where
    f: "fst (Evict (replacer st)) = Some f"
    and m: "f \<in> set (history_list (replacer st)) \<union> set (cache_list (replacer st))" by blast
  from m wf have v: "valid_frame st f" by (auto simp: bpm_wf_def list_all_iff)
  obtain r where r: "Evict (replacer st) = (Some f, r)" using f by (cases "Evict (replacer st)") auto
  have v': "valid_frame (st\<lparr>replacer := r\<rparr>) f" using v by simp
  have rs: "replacer_size r = replacer_size (replacer st)"
    using Evict_replacer_size [of "replacer st"] r by simp
  show ?thesis
    using Nil r v evict_frame_effect(8,9,13) [OF v'] rs
    by (simp add: acquire_frame_def)
qed

lemma valid_frame_next_page_id [simp]:
  "valid_frame (st\<lparr>next_page_id := n\<rparr>) = valid_frame st"
  by (rule ext) (simp add: valid_frame_def)

lemma NewPgImp_ok:
  assumes wf: "bpm_wf st" and av: "is_page_available st"
  shows "\<exists>f st'. NewPgImp st = Inr (next_page_id st, f, st') \<and> valid_frame st f
            \<and> pin_count (frame st' f) = 1 \<and> page_id (frame st' f) = next_page_id st
            \<and> page_table st' (next_page_id st) = Some f
            \<and> f \<in> tracked (replacer st') \<and> \<not> is_evictable (replacer st') f"
proof -
  let ?pid = "next_page_id st"
  let ?st0 = "st\<lparr>next_page_id := next_page_id st + 1\<rparr>"
  have wf0: "bpm_wf ?st0" using wf by (simp add: bpm_wf_def)
  have av0: "is_page_available ?st0" using av by (simp add: is_page_available_def)
  from acquire_frame_ok [OF wf0 av0] obtain f st1 where
    a: "acquire_frame ?st0 = Inr (f, st1)" and v: "valid_frame st f" and v1: "valid_frame st1 f"
    and len: "length (pages st1) = length (pages st)"
    and rs: "replacer_size (replacer st1) = replacer_size (replacer st)"
    by auto
  let ?st2 = "st1\<lparr>page_table := (page_table st1)(?pid \<mapsto> f)\<rparr>"
  let ?st3 = "set_frame ?st2 f ((frame ?st2 f)\<lparr>page_id := ?pid, pin_count := 1\<rparr>)"
  have rs3: "replacer_size (replacer ?st3) = pool_size st"
    using rs wf by (simp add: bpm_wf_def)
  have small: "replacer_size (replacer ?st3) < 2 ^ 31"
    using rs3 wf by (simp add: bpm_wf_def)
  have "nat f < pool_size st" using v wf by (simp add: valid_frame_def bpm_wf_def)
  then have le: "f \<le> int (replacer_size (replacer ?st3))"
    using rs3 by simp
  from touch_frame_ok [OF small le] obtain st' where
    t: "touch_frame ?st3 f = Inr st'" and tr: "f \<in> tracked (replacer st')"
    and ne: "\<not> is_evictable (replacer st') f" by blast
  have n: "NewPgImp st = Inr (?pid, f, st')"
    using av a t by (simp add: NewPgImp_def Let_def)
  have fr: "frame st' f = (frame ?st2 f)\<lparr>page_id := ?pid, pin_count := 1\<rparr>"
    using touch_frame_fields(8) [OF t, of f] v1 by (simp add: frame_set_frame_same)
  have pt: "page_table st' ?pid = Some f"
    using touch_frame_fields(2) [OF t] by simp
  from n v fr pt tr ne show ?thesis by simp
qed

lemma fresh_inv_new: "fresh_inv P 0 (BufferPoolManagerInstance_new P kk)"
  by (simp add: fresh_inv_def BufferPoolManagerInstance_new_def LRUKReplacer_new_def Page_new_def)

lemma NewPgImp_fresh:
  assumes inv: "fresh_inv P n st" and small: "P < 2 ^ 31" and lt: "n < P"
  shows "\<exists>pid st'. NewPgImp st = Inr (pid, int n, st') \<and> fresh_inv P (Suc n) st'"
proof -
  let ?pid = "next_page_id st"
  let ?st0 = "st\<lparr>next_page_id := next_page_id st + 1\<rparr>"
  from inv lt have av: "is_page_available st"
    by (auto simp: fresh_inv_def is_page_available_iff)
  have fl: "free_list st = int n # map int [Suc n..<P]"
    using inv lt by (simp add: fresh_inv_def upt_conv_Cons)
  have v: "valid_frame ?st0 (int n)" using inv lt by (simp add: valid_frame_def fresh_inv_def)
  let ?st1 = "?st0\<lparr>free_list := map int [Suc n..<P]\<rparr>"
  have a: "acquire_frame ?st0 = Inr (int n, ?st1)"
    using fl v by (simp add: acquire_frame_def)
  let ?st2 = "?st1\<lparr>page_table := (page_table ?st1)(?pid \<mapsto> int n)\<rparr>"
  let ?st3 = "set_frame ?st2 (int n) ((frame ?st2 (int n))\<lparr>page_id := ?pid, pin_count := 1\<rparr>)"
  have rs3: "replacer_size (replacer ?st3) = P" using inv by (simp add: fresh_inv_def)
  have sm: "replacer_size (replacer ?st3) < 2 ^ 31" using rs3 small by simp
  have le: "int n \<le> int (replacer_size (replacer ?st3))" using rs3 lt by simp
  from touch_frame_ok [OF sm le] obtain st' where
    t: "touch_frame ?st3 (int n) = Inr st'"
    and rs': "replacer_size (replacer st') = replacer_size (replacer ?st3)" by blast
  have n: "NewPgImp st = Inr (?pid, int n, st')"
    using av a t by (simp add: NewPgImp_def Let_def)
  have pg: "pages st' = (pages st)[n := (pages st ! n)\<lparr>page_id := ?pid, pin_count := 1\<rparr>]"
    using touch_frame_fields(1) [OF t] by (simp add: set_frame_def frame_def)
  have "fresh_inv P (Suc n) st'"
    unfolding fresh_inv_def
    using touch_frame_fields(5,7) [OF t] rs' rs3 inv lt pg
    by (auto simp: fresh_inv_def nth_list_update less_Suc_eq)
  with n show ?thesis by blast
qed

lemma new_pages_fresh:
  assumes small: "P < 2 ^ 31"
  shows "fresh_inv P m st \<Longrightarrow> m + n \<le> P \<Longrightarrow>
         \<exists>st'. new_pages n st = Inr st' \<and> fresh_inv P (m + n) st'"
proof (induction n arbitrary: m st)
  case 0
  then show ?case by simp
next
  case (Suc n)
  from Suc.prems have lt: "m < P" by simp
  from NewPgImp_fresh [OF Suc.prems(1) small lt] obtain pid st1 where
    n1: "NewPgImp st = Inr (pid, int m, st1)" and i1: "fresh_inv P (Suc m) st1" by blast
  from Suc.prems have "Suc m + n \<le> P" by simp
  from Suc.IH [OF i1 this] obtain st' where
    "new_pages n st1 = Inr st'" "fresh_inv P (Suc m + n) st'" by blast
  with n1 show ?case by simp
qed

lemma fresh_inv_full:
  assumes "fresh_inv P P st"
  shows "NewPgImp st = Inl LogicError" and "\<forall>i<P. pin_count (pages st ! i) = 1"
  using assms by (auto simp: fresh_inv_def NewPgImp_def is_page_available_iff)

lemma fresh_pool_wf:
  "P < 2 ^ 31 \<Longrightarrow> bpm_wf (BufferPoolManagerInstance_new P kk)"
  by (auto simp: bpm_wf_def BufferPoolManagerInstance_new_def LRUKReplacer_new_def
      replacer_wf_def tracked_def valid_frame_def list_all_iff)

lemma dirty_pool_wf: "bpm_wf dirty_pool"
  by (auto simp: bpm_wf_def dirty_pool_def replacer_wf_def tracked_def valid_frame_def
      is_evictable_def ev_def)

subsection \<open>Buffer pool: FlushPage\<close>

text \<open>
  Claim C7. For a page that the page table maps to a frame of the pool, \<open>FlushPage\<close>
  returns true, writes the frame's bytes to disk under that page id, and leaves the frames
  (so the dirty flag, the page id and the pin count of the frame), the page table, the replacer
  and the free list as they were. For \<open>INVALID_PAGE_ID\<close> and for a page id the page
  table does not map, it returns false and the pool, disk included, is unchanged.
\<close>

theorem FlushPage_keeps_dirty_flag:
  "(pid \<noteq> INVALID_PAGE_ID \<and> page_table st pid = Some f \<and> valid_frame st f \<longrightarrow>
      (\<exists>st'. FlushPgImp st pid = Inr (True, st')
         \<and> disk st' = (disk st)(pid := data (frame st f))
         \<and> disk_writes st' = disk_writes st @ [(pid, data (frame st f))]
         \<and> pages st' = pages st
         \<and> is_dirty (frame st' f) = is_dirty (frame st f)
         \<and> page_id (frame st' f) = page_id (frame st f)
         \<and> pin_count (frame st' f) = pin_count (frame st f)
         \<and> page_table st' = page_table st
         \<and> replacer st' = replacer st
         \<and> free_list st' = free_list st
         \<and> next_page_id st' = next_page_id st))
   \<and> (pid = INVALID_PAGE_ID \<or> page_table st pid = None \<longrightarrow> FlushPgImp st pid = Inr (False, st))"
  by (auto simp: FlushPgImp_def)

theorem FlushPage_keeps_dirty_flag_witness:
  "page_table dirty_pool 0 = Some 0 \<and> valid_frame dirty_pool 0 \<and> is_dirty (frame dirty_pool 0)
   \<and> (\<exists>st'. FlushPgImp dirty_pool 0 = Inr (True, st') \<and> disk st' 0 = 7
          \<and> disk_writes st' = [(0, 7)] \<and> is_dirty (frame st' 0))
   \<and> FlushPgImp dirty_pool INVALID_PAGE_ID = Inr (False, dirty_pool)
   \<and> FlushPgImp dirty_pool 5 = Inr (False, dirty_pool)"
proof -
  have pt: "page_table dirty_pool 0 = Some 0" and none: "page_table dirty_pool 5 = None"
    and v: "valid_frame dirty_pool 0"
    and d: "is_dirty (frame dirty_pool 0)" and dat: "data (frame dirty_pool 0) = 7"
    and w: "disk_writes dirty_pool = []"
    by (simp_all add: dirty_pool_def valid_frame_def frame_def)
  have inv: "(0::int) \<noteq> INVALID_PAGE_ID" by (simp add: INVALID_PAGE_ID_def)
  from FlushPage_keeps_dirty_flag [of 0 dirty_pool 0] pt v inv obtain st' where
    "FlushPgImp dirty_pool 0 = Inr (True, st')"
    "disk st' = (disk dirty_pool)(0 := data (frame dirty_pool 0))"
    "disk_writes st' = disk_writes dirty_pool @ [(0, data (frame dirty_pool 0))]"
    "is_dirty (frame st' 0) = is_dirty (frame dirty_pool 0)"
    by blast
  with d dat w have 1: "\<exists>st'. FlushPgImp dirty_pool 0 = Inr (True, st') \<and> disk st' 0 = 7
          \<and> disk_writes st' = [(0, 7)] \<and> is_dirty (frame st' 0)"
    by auto
  have 2: "FlushPgImp dirty_pool INVALID_PAGE_ID = Inr (False, dirty_pool)"
    using FlushPage_keeps_dirty_flag [of INVALID_PAGE_ID dirty_pool 0] by simp
  have 3: "FlushPgImp dirty_pool 5 = Inr (False, dirty_pool)"
    using FlushPage_keeps_dirty_flag [of 5 dirty_pool 0] none by simp
  from pt v d 1 2 3 show ?thesis by blast
qed

subsection \<open>Buffer pool: the eviction path\<close>

text \<open>
  Claim C9. When the free list is empty and \<open>NewPage\<close> or \<open>FetchPage\<close> (on a
  page that is not resident) returns a frame, the frame is the one \<open>Evict\<close> chose. Its
  bytes were written to disk, under the page id it held, exactly when its dirty flag was set; when
  the frame is handed to the installing code its memory is zero, its dirty flag is false and the
  page-table entry of the page it held is gone. In the pool returned the frame is clean, the
  page table maps the new page id to it, and its bytes are zero (\<open>NewPage\<close>) or the bytes
  read from disk (\<open>FetchPage\<close>).
\<close>

theorem eviction_writes_back_dirty:
  "free_list st = [] \<longrightarrow>
   (\<forall>pid f st'. NewPgImp st = Inr (pid, f, st') \<longrightarrow>
            fst (Evict (replacer st)) = Some f
          \<and> (\<exists>st1. acquire_frame (st\<lparr>next_page_id := next_page_id st + 1\<rparr>) = Inr (f, st1)
                \<and> data (frame st1 f) = 0 \<and> \<not> is_dirty (frame st1 f)
                \<and> page_id (frame st1 f) = page_id (frame st f)
                \<and> page_table st1 = (page_table st)(page_id (frame st f) := None))
          \<and> disk_writes st' =
               (if is_dirty (frame st f)
                then disk_writes st @ [(page_id (frame st f), data (frame st f))]
                else disk_writes st)
          \<and> disk st' =
               (if is_dirty (frame st f)
                then (disk st)(page_id (frame st f) := data (frame st f))
                else disk st)
          \<and> \<not> is_dirty (frame st' f)
          \<and> data (frame st' f) = 0
          \<and> page_table st' = ((page_table st)(page_id (frame st f) := None))(pid \<mapsto> f))
   \<and> (\<forall>pid f st'. page_table st pid = None \<and> FetchPgImp st pid = Inr (f, st') \<longrightarrow>
            fst (Evict (replacer st)) = Some f
          \<and> (\<exists>st1. acquire_frame st = Inr (f, st1)
                \<and> data (frame st1 f) = 0 \<and> \<not> is_dirty (frame st1 f)
                \<and> page_id (frame st1 f) = page_id (frame st f)
                \<and> page_table st1 = (page_table st)(page_id (frame st f) := None))
          \<and> disk_writes st' =
               (if is_dirty (frame st f)
                then disk_writes st @ [(page_id (frame st f), data (frame st f))]
                else disk_writes st)
          \<and> disk st' =
               (if is_dirty (frame st f)
                then (disk st)(page_id (frame st f) := data (frame st f))
                else disk st)
          \<and> \<not> is_dirty (frame st' f)
          \<and> data (frame st' f) = disk st' pid
          \<and> page_table st' = ((page_table st)(page_id (frame st f) := None))(pid \<mapsto> f))"
  using NewPgImp_eviction FetchPgImp_eviction by blast

theorem eviction_writes_back_dirty_witness:
  "free_list dirty_pool = [] \<and> is_dirty (frame dirty_pool 0) \<and> page_table dirty_pool 9 = None
   \<and> (\<exists>st'. NewPgImp dirty_pool = Inr (1, 0, st') \<and> disk_writes st' = [(0, 7)]
          \<and> disk st' 0 = 7 \<and> \<not> is_dirty (frame st' 0) \<and> data (frame st' 0) = 0
          \<and> page_table st' 0 = None \<and> page_table st' 1 = Some 0)
   \<and> (\<exists>st'. FetchPgImp dirty_pool 9 = Inr (0, st') \<and> disk_writes st' = [(0, 7)]
          \<and> \<not> is_dirty (frame st' 0) \<and> data (frame st' 0) = 0
          \<and> page_table st' 0 = None \<and> page_table st' 9 = Some 0)"
proof -
  have fl: "free_list dirty_pool = []" and none: "page_table dirty_pool 9 = None"
    and d: "is_dirty (frame dirty_pool 0)" and dat: "data (frame dirty_pool 0) = 7"
    and pid: "page_id (frame dirty_pool 0) = 0" and np: "next_page_id dirty_pool = 1"
    and w: "disk_writes dirty_pool = []" and dk: "disk dirty_pool = (\<lambda>_. 0)"
    and pt: "page_table dirty_pool = [0 \<mapsto> 0]"
    by (simp_all add: dirty_pool_def frame_def)
  have av: "is_page_available dirty_pool"
    by (simp add: is_page_available_def dirty_pool_def)
  from NewPgImp_ok [OF dirty_pool_wf av] np obtain f st' where
    n: "NewPgImp dirty_pool = Inr (1, f, st')" and v: "valid_frame dirty_pool f" by auto
  from v have f0: "f = 0" by (auto simp: valid_frame_def dirty_pool_def)
  from eviction_writes_back_dirty [of dirty_pool] fl n [unfolded f0]
  have "disk_writes st' =
               (if is_dirty (frame dirty_pool 0)
                then disk_writes dirty_pool @ [(page_id (frame dirty_pool 0), data (frame dirty_pool 0))]
                else disk_writes dirty_pool)"
    and "disk st' =
               (if is_dirty (frame dirty_pool 0)
                then (disk dirty_pool)(page_id (frame dirty_pool 0) := data (frame dirty_pool 0))
                else disk dirty_pool)"
    and "\<not> is_dirty (frame st' 0)" and "data (frame st' 0) = 0"
    and "page_table st' = ((page_table dirty_pool)(page_id (frame dirty_pool 0) := None))(1 \<mapsto> 0)"
    by blast+
  with d dat pid w pt n f0
  have 1: "\<exists>st'. NewPgImp dirty_pool = Inr (1, 0, st') \<and> disk_writes st' = [(0, 7)]
          \<and> disk st' 0 = 7 \<and> \<not> is_dirty (frame st' 0) \<and> data (frame st' 0) = 0
          \<and> page_table st' 0 = None \<and> page_table st' 1 = Some 0"
    by auto
  have c: "static_cast_int (Suc 0) = 1" using static_cast_int_id [of 1] by simp
  obtain st2 where ft: "FetchPgImp dirty_pool 9 = Inr (0, st2)"
    by (simp add: FetchPgImp_def dirty_pool_def is_page_available_def acquire_frame_def
        Evict_def subscript_def valid_frame_def evict_frame_def frame_def set_frame_def
        WritePage_def touch_frame_def RecordAccess_def SetEvictable_def c default_entry_def
        erase_last_def Let_def)
  from eviction_writes_back_dirty [of dirty_pool] fl none ft
  have "disk_writes st2 =
               (if is_dirty (frame dirty_pool 0)
                then disk_writes dirty_pool @ [(page_id (frame dirty_pool 0), data (frame dirty_pool 0))]
                else disk_writes dirty_pool)"
    and "\<not> is_dirty (frame st2 0)" and "data (frame st2 0) = disk st2 9"
    and "disk st2 =
               (if is_dirty (frame dirty_pool 0)
                then (disk dirty_pool)(page_id (frame dirty_pool 0) := data (frame dirty_pool 0))
                else disk dirty_pool)"
    and "page_table st2 = ((page_table dirty_pool)(page_id (frame dirty_pool 0) := None))(9 \<mapsto> 0)"
    by blast+
  with d dat pid w pt dk ft
  have 2: "\<exists>st'. FetchPgImp dirty_pool 9 = Inr (0, st') \<and> disk_writes st' = [(0, 7)]
          \<and> \<not> is_dirty (frame st' 0) \<and> data (frame st' 0) = 0
          \<and> page_table st' 0 = None \<and> page_table st' 9 = Some 0"
    by auto
  from fl d none 1 2 show ?thesis by blast
qed

subsection \<open>Buffer pool: NewPage and capacity\<close>

text \<open>
  Claim C6. In a well-formed pool \<open>NewPage\<close> fails, with the logic error of its
  availability check, exactly when every frame has a pin count above 0, and it fails in no other
  way. When some frame has pin count 0 it returns a frame of the pool whose pin count is 1, which
  holds the new page id, is mapped from it in the page table and is tracked and not evictable in
  the replacer. In a new pool of \<open>P\<close> frames (\<open>P\<close> below \<open>2^31\<close>) the first
  \<open>P\<close> calls of \<open>NewPage\<close> succeed, leave every frame pinned once, and the next
  call fails.
\<close>

theorem NewPage_fails_iff_all_pinned:
  "(bpm_wf st \<longrightarrow>
      ((NewPgImp st = Inl LogicError) = (\<forall>i<pool_size st. pin_count (frame st (int i)) > 0))
      \<and> (isl (NewPgImp st) = (\<forall>i<pool_size st. pin_count (frame st (int i)) > 0))
      \<and> ((\<exists>i<pool_size st. pin_count (frame st (int i)) = 0) \<longrightarrow>
            (\<exists>pid f st'. NewPgImp st = Inr (pid, f, st') \<and> valid_frame st f
               \<and> pin_count (frame st' f) = 1 \<and> page_id (frame st' f) = pid
               \<and> page_table st' pid = Some f
               \<and> f \<in> tracked (replacer st') \<and> \<not> is_evictable (replacer st') f)))
   \<and> (P < 2 ^ 31 \<longrightarrow>
        (\<exists>st'. new_pages P (BufferPoolManagerInstance_new P kk) = Inr st'
            \<and> (\<forall>i<P. pin_count (frame st' (int i)) = 1)
            \<and> NewPgImp st' = Inl LogicError))"
proof (intro conjI impI)
  assume wf: "bpm_wf st"
  have av: "is_page_available st \<longleftrightarrow> \<not> (\<forall>i<pool_size st. pin_count (frame st (int i)) > 0)"
    by (auto simp: is_page_available_iff frame_def)
  show 1: "(NewPgImp st = Inl LogicError) = (\<forall>i<pool_size st. pin_count (frame st (int i)) > 0)"
  proof (cases "is_page_available st")
    case True
    from NewPgImp_ok [OF wf True] av True show ?thesis by auto
  next
    case False
    with av show ?thesis by (simp add: NewPgImp_def)
  qed
  show "isl (NewPgImp st) = (\<forall>i<pool_size st. pin_count (frame st (int i)) > 0)"
  proof (cases "is_page_available st")
    case True
    from NewPgImp_ok [OF wf True] av True show ?thesis by auto
  next
    case False
    with av show ?thesis by (simp add: NewPgImp_def)
  qed
  assume "\<exists>i<pool_size st. pin_count (frame st (int i)) = 0"
  then have "is_page_available st" using av by auto
  from NewPgImp_ok [OF wf this]
  show "\<exists>pid f st'. NewPgImp st = Inr (pid, f, st') \<and> valid_frame st f
               \<and> pin_count (frame st' f) = 1 \<and> page_id (frame st' f) = pid
               \<and> page_table st' pid = Some f
               \<and> f \<in> tracked (replacer st') \<and> \<not> is_evictable (replacer st') f"
    by blast
next
  assume small: "P < 2 ^ 31"
  have "0 + P \<le> P" by simp
  from new_pages_fresh [OF small fresh_inv_new this, of kk]
  obtain st' :: "'b BufferPoolManagerInstance" where
    n: "new_pages P (BufferPoolManagerInstance_new P kk) = Inr st'" and i: "fresh_inv P P st'"
    by auto
  from fresh_inv_full [OF i] n
  show "\<exists>st'. new_pages P (BufferPoolManagerInstance_new P kk) = Inr st'
            \<and> (\<forall>i<P. pin_count (frame st' (int i)) = 1)
            \<and> NewPgImp (st' :: 'b BufferPoolManagerInstance) = Inl LogicError"
    by (auto simp: frame_def)
qed

theorem NewPage_fails_iff_all_pinned_witness:
  "bpm_wf (BufferPoolManagerInstance_new 2 2 :: int BufferPoolManagerInstance)
   \<and> (\<exists>pid f st'. NewPgImp (BufferPoolManagerInstance_new 2 2 :: int BufferPoolManagerInstance)
                     = Inr (pid, f, st')
         \<and> pin_count (frame st' f) = 1 \<and> page_table st' pid = Some f
         \<and> \<not> is_evictable (replacer st') f)
   \<and> (2::nat) < 2 ^ 31
   \<and> (\<exists>st'. new_pages 2 (BufferPoolManagerInstance_new 2 2 :: int BufferPoolManagerInstance) = Inr st'
         \<and> NewPgImp st' = Inl LogicError)
   \<and> bpm_wf dirty_pool
   \<and> (\<exists>pid f st'. NewPgImp dirty_pool = Inr (pid, f, st') \<and> pin_count (frame st' f) = 1)"
proof -
  let ?b = "BufferPoolManagerInstance_new 2 2 :: int BufferPoolManagerInstance"
  have wf: "bpm_wf ?b"
    by (rule fresh_pool_wf) simp
  have un: "\<exists>i<pool_size ?b. pin_count (frame ?b (int i)) = 0"
    by (rule exI [of _ 0])
       (simp add: BufferPoolManagerInstance_new_def frame_def Page_new_def)
  have small: "(2::nat) < 2 ^ 31" by simp
  from NewPage_fails_iff_all_pinned [of ?b 2 2] wf un
  have 1: "\<exists>pid f st'. NewPgImp ?b = Inr (pid, f, st')
         \<and> pin_count (frame st' f) = 1 \<and> page_table st' pid = Some f
         \<and> \<not> is_evictable (replacer st') f"
    by blast
  from NewPage_fails_iff_all_pinned [of ?b 2 2, where 'b = int] small
  have 2: "\<exists>st'. new_pages 2 ?b = Inr st' \<and> NewPgImp st' = Inl LogicError"
    by blast
  have und: "\<exists>i<pool_size dirty_pool. pin_count (frame dirty_pool (int i)) = 0"
    by (rule exI [of _ 0]) (simp add: dirty_pool_def frame_def)
  from NewPage_fails_iff_all_pinned [of dirty_pool 2 2, where 'b = int] dirty_pool_wf und
  have 3: "\<exists>pid f st'. NewPgImp dirty_pool = Inr (pid, f, st') \<and> pin_count (frame st' f) = 1"
    by blast
  from wf 1 small 2 dirty_pool_wf 3 show ?thesis by blast
qed

subsection \<open>B+-tree: helper lemmas\<close>

lemma sbind_simps [simp]:
  "sbind (Inl e) f = Inl e"
  "sbind (Inr x) f = f x"
  by (simp_all add: sbind_def)
















subsection \<open>B+-tree: latches and the descent to a leaf\<close>

lemma release_fold:
  "fold (\<lambda>page s. case page of None \<Rightarrow> WUnlock s | Some pid \<Rightarrow> WUnlatch s pid) ps s
     = s\<lparr>root_page_id_latch := root_page_id_latch s \<and> None \<notin> set ps,
         wlatched := wlatched s - {p. Some p \<in> set ps}\<rparr>"
proof (induction ps arbitrary: s)
  case Nil
  then show ?case by simp
next
  case (Cons a ps)
  show ?case
  proof (cases a)
    case None
    then show ?thesis by (simp add: Cons.IH WUnlock_def)
  next
    case (Some p)
    have "wlatched s - {p} - {q. Some q \<in> set ps} = wlatched s - {q. q = p \<or> Some q \<in> set ps}"
      by auto
    with Some show ?thesis by (simp add: Cons.IH WUnlatch_def)
  qed
qed

lemma ReleaseWLatches_eq:
  "ReleaseWLatches t
     = t\<lparr>page_set := [],
         root_page_id_latch := root_page_id_latch t \<and> None \<notin> set (page_set t),
         wlatched := wlatched t - {p. Some p \<in> set (page_set t)}\<rparr>"
  by (simp add: ReleaseWLatches_def release_fold)


lemma IsPageSafe_cong:
  "leaf_min_size t' = leaf_min_size t \<Longrightarrow> internal_min_size t' = internal_min_size t \<Longrightarrow>
   IsPageSafe t' p op = IsPageSafe t p op"
  by (cases op) (simp_all add: IsPageSafe_def GetMinSize_def)

lemma IsPageSafe_latches [simp]:
  "IsPageSafe (t\<lparr>page_set := ps\<rparr>) p op = IsPageSafe t p op"
  "IsPageSafe (t\<lparr>root_page_id_latch := b\<rparr>) p op = IsPageSafe t p op"
  "IsPageSafe (t\<lparr>wlatched := W\<rparr>) p op = IsPageSafe t p op"
  by (rule IsPageSafe_cong; simp)+

lemma FetchPage_latches [simp]:
  "FetchPage (t\<lparr>page_set := ps\<rparr>) pid = FetchPage t pid"
  "FetchPage (t\<lparr>root_page_id_latch := b\<rparr>) pid = FetchPage t pid"
  "FetchPage (t\<lparr>wlatched := W\<rparr>) pid = FetchPage t pid"
  by (simp_all add: FetchPage_def)





lemma holding_fields [simp]:
  "FetchPage (holding t W0 ps) pid = FetchPage t pid"
  "IsPageSafe (holding t W0 ps) p op = IsPageSafe t p op"
  "root_page_id (holding t W0 ps) = root_page_id t"
  by (simp_all add: holding_def)

lemma latch_page_holding:
  assumes "op \<noteq> SEARCH" and "x \<notin> W0" and "Some x \<notin> set ps"
    and "\<forall>p. Some p \<in> set ps \<longrightarrow> p \<notin> W0"
  shows "latch_page (holding t W0 ps) page x op False
           = Inr (holding t W0 (if IsPageSafe t page op then [Some x] else ps @ [Some x]))"
proof -
  let ?A = "{p. Some p \<in> set ps}"
  have 1: "insert x (W0 \<union> ?A) - ?A = insert x W0"
    using assms by auto
  have 2: "insert x (W0 \<union> ?A) = W0 \<union> {p. p = x \<or> Some p \<in> set ps}"
    by auto
  have 4: "W0 \<union> {p. p = x \<or> Some p \<in> set ps} - ?A = insert x W0"
    using assms by auto
  have 3: "x \<notin> wlatched (holding t W0 ps)"
    using assms by (simp add: holding_def)
  show ?thesis
    using assms(1) 3
    by (simp add: latch_page_def WLatch_def AddIntoPageSet_def ReleaseWLatches_eq)
       (simp add: holding_def 1 2 4)
qed








subsection \<open>B+-tree: five inserts and the iterator\<close>

lemma Iterator_incr_next_leaf:
  assumes "it_page it = Some pid" and "FetchPage t pid = Inr leaf"
    and "it_idx it = psize leaf - 1" and "leaf_next_page_id leaf \<noteq> INVALID_PAGE_ID"
    and "FetchPage t (leaf_next_page_id leaf) = Inr next_page"
    and "leaf_next_page_id leaf \<notin> wlatched t"
  shows "Iterator_incr t it = Inr \<lparr>it_page = Some (leaf_next_page_id leaf), it_idx = 0\<rparr>"
  using assms by (simp add: Iterator_incr_def iterator_leaf_def RLatch_def)


subsection \<open>B+-tree: inserting a key that is present\<close>



subsection \<open>B+-tree: removals\<close>

lemma Leaf_Remove_single:
  assumes "psize p = 1" and "KeyAt p 0 = key"
  shows "\<exists>q. Leaf_Remove p key = (True, q) \<and> psize q = 0
             \<and> page_type q = page_type p \<and> parent_page_id q = parent_page_id p
             \<and> tree_page_id q = tree_page_id p"
  using assms by (simp add: Leaf_Remove_def DecreaseSize_def Let_def)

lemma DeletePage_fields [simp]:
  "root_page_id (DeletePage s pid) = root_page_id s"
  "page_set (DeletePage s pid) = page_set s"
  "root_page_id_latch (DeletePage s pid) = root_page_id_latch s"
  "wlatched (DeletePage s pid) = wlatched s"
  by (simp_all add: DeletePage_def)

lemma DeletePage_fold_fields [simp]:
  "root_page_id (fold (\<lambda>pid' s. DeletePage s pid') xs t) = root_page_id t"
  "page_set (fold (\<lambda>pid' s. DeletePage s pid') xs t) = page_set t"
  "root_page_id_latch (fold (\<lambda>pid' s. DeletePage s pid') xs t) = root_page_id_latch t"
  "wlatched (fold (\<lambda>pid' s. DeletePage s pid') xs t) = wlatched t"
  by (induction xs arbitrary: t) simp_all

lemma Remove_last_key_of_leaf_root:
  assumes ne: "root_page_id t \<noteq> INVALID_PAGE_ID"
    and f: "FetchPage t (root_page_id t) = Inr p"
    and leaf: "IsLeafPage p" and root: "IsRootPage p"
    and one: "psize p = 1" and key: "KeyAt p 0 = key"
    and rl: "\<not> root_page_id_latch t" and pl: "root_page_id t \<notin> wlatched t"
    and fuel: "2 \<le> fuel"
  shows "\<exists>t'. BPlusTree_Remove fuel t key = Inr t' \<and> root_page_id t' = INVALID_PAGE_ID
              \<and> page_set t' = [] \<and> \<not> root_page_id_latch t'
              \<and> wlatched t' = wlatched t - {p. Some p \<in> set (page_set t)}"
proof -
  from fuel obtain n where n: "fuel = Suc (Suc n)"
    by (metis Suc_le_D numeral_2_eq_2 Suc_le_mono)
  let ?r = "root_page_id t"
  let ?W0 = "wlatched t - {p. Some p \<in> set (page_set t)}"
  have unsafe: "\<not> IsPageSafe s p DELETE" for s
    using leaf root one by (simp add: IsPageSafe_def)
  have del: "DELETE \<noteq> SEARCH" by simp
  let ?t1 = "AddIntoPageSet (t\<lparr>wlatched := insert ?r (wlatched t)\<rparr>) (Some ?r)"
  have "insert ?r (wlatched t) - {p. p = ?r \<or> Some p \<in> set (page_set t)} = ?W0"
    using pl by auto
  then have R1: "ReleaseWLatches ?t1 = holding t ?W0 []"
    using rl by (simp add: ReleaseWLatches_eq AddIntoPageSet_def holding_def)
  have w: "WLock (holding t ?W0 []) = Inr ((holding t ?W0 [])\<lparr>root_page_id_latch := True\<rparr>)"
    by (simp add: WLock_def holding_def)
  have a: "AddIntoPageSet ((holding t ?W0 [])\<lparr>root_page_id_latch := True\<rparr>) None
             = holding t ?W0 [None]"
    by (simp add: AddIntoPageSet_def holding_def)
  have r0: "?r \<notin> ?W0" using pl by simp
  have l2: "latch_page (holding t ?W0 [None]) p ?r DELETE False
              = Inr (holding t ?W0 [None, Some ?r])"
    using latch_page_holding [OF del r0, of "[None]" t p] unsafe by simp
  have g2: "GetLeafPage_from (Suc n) (holding t ?W0 [None]) key DELETE False ?r
              = Inr (?r, holding t ?W0 [None, Some ?r])"
    using f l2 leaf by simp
  have l1: "latch_page t p ?r DELETE True = Inr ?t1"
    using leaf pl by (simp add: latch_page_def WLatch_def)
  have g: "GetLeafPage fuel t key DELETE True = Inr (?r, holding t ?W0 [None, Some ?r])"
    using f l1 leaf unsafe R1 w a g2 by (simp add: GetLeafPage_def n Let_def)
  from Leaf_Remove_single [OF one key] obtain q where
    q: "Leaf_Remove p key = (True, q)" and q0: "psize q = 0"
    and qt: "page_type q = page_type p" and qp: "parent_page_id q = parent_page_id p"
    by blast
  have ql: "IsLeafPage q" and qr: "IsRootPage q"
    using leaf root qt qp by (simp_all add: IsLeafPage_def IsRootPage_def)
  let ?h = "holding t ?W0 [None, Some ?r]"
  let ?t2 = "put_page ?h ?r q"
  let ?t3 = "ReleaseWLatches (?t2\<lparr>deleted_page_set := deleted_page_set ?t2 @ [tree_page_id q],
                                   root_page_id := INVALID_PAGE_ID\<rparr>)"
  have d: "DeleteEntry fuel ?h ?r key = Inr ?t3"
    using f leaf q ql qr q0 by (simp add: n DeleteEntry_body_def Let_def)
  have "?W0 \<union> {p. p = ?r} - {p. p = ?r} = ?W0" using pl by auto
  then have t3: "root_page_id ?t3 = INVALID_PAGE_ID" "page_set ?t3 = []"
    "\<not> root_page_id_latch ?t3" "wlatched ?t3 = ?W0"
    by (simp_all add: ReleaseWLatches_eq put_page_def holding_def)
  have "BPlusTree_Remove fuel t key
          = Inr ((fold (\<lambda>pid' s. DeletePage s pid') (deleted_page_set ?t3) ?t3)
                   \<lparr>deleted_page_set := []\<rparr>)"
    using ne rl g d by (simp add: BPlusTree_Remove_def IsEmpty_def RLock_def)
  with t3 show ?thesis by simp
qed

lemma DeleteEntry_keeps_latches:
  assumes "FetchPage t pid = Inr p"
    and "(if IsLeafPage p then Leaf_Remove p key else Internal_Remove p key) = (True, q)"
    and "\<not> IsRootPage q" and "\<not> psize q < GetMinSize t q"
  shows "DeleteEntry (Suc n) t pid key = Inr (put_page t pid q)"
    and "wlatched (put_page t pid q) = wlatched t"
    and "page_set (put_page t pid q) = page_set t"
  using assms
  by (auto simp: DeleteEntry_body_def put_page_def GetMinSize_def Let_def split: if_splits)



end
